theory Spec2Isabelle
  imports Main "HOL-Library.AList" "HOL-Library.Sublist"
begin

section \<open>JavaScript values\<close>

text \<open>
  The configuration objects of the program are plain JavaScript objects: literals of the
  source, results of \<^verbatim>\<open>JSON.parse\<close>, and object spreads of those. An object is an
  association list of its own enumerable properties, read with \<open>map_of\<close>; a key can be
  present with the value \<open>undefined\<close>, which is different from the key being absent.
  Numbers are only copied by the program, never computed with, and are integers here.
  A string is the sequence of the bytes of its UTF-8 encoding, which for ASCII text are its
  characters.
\<close>

datatype jsval =
    JUndefined
  | JNull
  | JBool bool
  | JNum int
  | JStr string
  | JArr "jsval list"
  | JObj "(string \<times> jsval) list"

datatype error =
    TypeError
  | Error string
  | SystemError string

text \<open>Decimal notation of an index, the property key of an array element or a string character.\<close>

fun string_of_nat :: "nat \<Rightarrow> string" where
  "string_of_nat n =
     (if n < 10 then [char_of (48 + n)]
      else string_of_nat (n div 10) @ [char_of (48 + n mod 10)])"

declare string_of_nat.simps [simp del]

text \<open>
  The own enumerable properties of a value: what an object spread \<^verbatim>\<open>{...v}\<close>
  copies. \<open>undefined\<close>, \<open>null\<close>, booleans and numbers have none; an array has its
  elements and a string (of ASCII text) its characters, under their indices. The order of the pairs is not
  the order of enumeration, which no function of the program depends on; where a list binds
  a key twice, the first binding is the property.
\<close>

fun own_props :: "jsval \<Rightarrow> (string \<times> jsval) list" where
  "own_props (JObj kvs) = kvs"
| "own_props (JArr xs) = zip (map string_of_nat [0..<length xs]) xs"
| "own_props (JStr s) = zip (map string_of_nat [0..<length s]) (map (\<lambda>c. JStr [c]) s)"
| "own_props JUndefined = []"
| "own_props JNull = []"
| "own_props (JBool b) = []"
| "own_props (JNum n) = []"

definition has_key :: "jsval \<Rightarrow> string \<Rightarrow> bool" where
  "has_key v k = (k \<in> fst ` set (own_props v))"

text \<open>
  The member read \<^verbatim>\<open>v?.k\<close>: \<open>undefined\<close> when \<open>v\<close> is \<open>undefined\<close> or \<open>null\<close> or has
  no own property \<open>k\<close>. It is also \<^verbatim>\<open>v.k\<close> for every \<open>v\<close> that is neither \<open>undefined\<close> nor
  \<open>null\<close>; the source's plain reads of a possibly nullish value are guarded where they occur.
  Members inherited from a prototype (\<^verbatim>\<open>length\<close>, methods) are not properties here; the
  program reads none of them through \<open>getprop\<close>.
\<close>

definition getprop :: "jsval \<Rightarrow> string \<Rightarrow> jsval" where
  "getprop v k = (case map_of (own_props v) k of None \<Rightarrow> JUndefined | Some x \<Rightarrow> x)"

definition nullish :: "jsval \<Rightarrow> bool" where
  "nullish v = (v = JUndefined \<or> v = JNull)"

fun truthy :: "jsval \<Rightarrow> bool" where
  "truthy JUndefined = False"
| "truthy JNull = False"
| "truthy (JBool b) = b"
| "truthy (JNum n) = (n \<noteq> 0)"
| "truthy (JStr s) = (s \<noteq> [])"
| "truthy (JArr xs) = True"
| "truthy (JObj kvs) = True"

text \<open>
  The object literal \<^verbatim>\<open>{...a, ...b, k: v}\<close> is \<open>spread [a, b, JObj [(k, v)]]\<close>: the
  properties are assigned from left to right, a later value replaces an earlier one under
  the same key, also when the later value is \<open>undefined\<close>.
\<close>

definition spread :: "jsval list \<Rightarrow> (string \<times> jsval) list" where
  "spread vs = foldl (\<lambda>acc v. AList.merge acc (own_props v)) [] vs"

section \<open>Merging two configurations\<close>

text \<open>
  \<^verbatim>\<open>mergeConfig(base, overrides)\<close>. The reads \<^verbatim>\<open>base.browser\<close> and
  \<^verbatim>\<open>overrides.browser\<close> throw a TypeError when the object is \<open>undefined\<close> or \<open>null\<close>;
  nothing else in the function throws.
\<close>

definition mergeConfig :: "jsval \<Rightarrow> jsval \<Rightarrow> error + jsval" where
  "mergeConfig base overrides =
     (if nullish base \<or> nullish overrides then Inl TypeError
      else
        let browser = JObj (spread
              [getprop base ''browser'',
               getprop overrides ''browser'',
               JObj [(''launchOptions'', JObj (spread
                        [getprop (getprop base ''browser'') ''launchOptions'',
                         getprop (getprop overrides ''browser'') ''launchOptions'',
                         JObj [(''assistantMode'', JBool True)]])),
                     (''contextOptions'', JObj (spread
                        [getprop (getprop base ''browser'') ''contextOptions'',
                         getprop (getprop overrides ''browser'') ''contextOptions'']))]])
        in Inr (JObj (spread [base, overrides, JObj [(''browser'', browser)]])))"

section \<open>The environment of the process\<close>

text \<open>
  What the program reads from its host and what it changes there. The functions of Node's
  library (\<^verbatim>\<open>path.join\<close>, \<^verbatim>\<open>fs.promises.readFile\<close>, \<^verbatim>\<open>JSON.parse\<close>,
  the listening socket of \<^verbatim>\<open>findFreePort\<close>) and Playwright's \<^verbatim>\<open>devices\<close>
  table are not code of the program: they are fields of the environment. \<open>dirs\<close> are the
  directories the program has found or made; \<open>mkdir_error\<close> is the failure, if any, of
  creating a directory that is not there yet.
\<close>

record world =
  platform :: string
  tmpdir :: string
  homedir :: string
  XDG_CACHE_HOME :: "string option"
  LOCALAPPDATA :: "string option"
  DISPLAY :: "string option"
  path_join :: "string list \<Rightarrow> string"
  dirs :: "string list"
  mkdir_error :: "string \<Rightarrow> string option"
  listen_result :: "string + int"
  devices :: "string \<Rightarrow> jsval option"
  read_file :: "string \<Rightarrow> string + string"
  json_parse :: "string \<Rightarrow> string + jsval"

text \<open>
  \<^verbatim>\<open>fs.promises.mkdir(p, { recursive: true })\<close>: no error when the directory is there
  already.
\<close>

definition mkdir_recursive :: "world \<Rightarrow> string \<Rightarrow> error + world" where
  "mkdir_recursive w p =
     (if p \<in> set (dirs w) then Inr w
      else case mkdir_error w p of
             Some msg \<Rightarrow> Inl (SystemError msg)
           | None \<Rightarrow> Inr (w\<lparr>dirs := p # dirs w\<rparr>))"

text \<open>The operand of \<^verbatim>\<open>e || d\<close> and of \<^verbatim>\<open>!e\<close> for an optional string: set and not empty.\<close>

definition truthy_str :: "string option \<Rightarrow> bool" where
  "truthy_str s = (case s of None \<Rightarrow> False | Some x \<Rightarrow> x \<noteq> [])"

section \<open>Command-line options and the compiled default\<close>

record CLIOptions =
  browser :: "string option"
  caps :: "string option"
  cdpEndpoint :: "string option"
  executablePath :: "string option"
  headless :: "bool option"
  device :: "string option"
  userDataDir :: "string option"
  port :: "int option"
  host :: "string option"
  vision :: "bool option"
  config :: "string option"

text \<open>An optional value as a property value: \<open>undefined\<close> when it is not set.\<close>

definition opt_str :: "string option \<Rightarrow> jsval" where
  "opt_str s = (case s of None \<Rightarrow> JUndefined | Some x \<Rightarrow> JStr x)"

definition opt_bool :: "bool option \<Rightarrow> jsval" where
  "opt_bool b = (case b of None \<Rightarrow> JUndefined | Some x \<Rightarrow> JBool x)"

definition opt_num :: "int option \<Rightarrow> jsval" where
  "opt_num n = (case n of None \<Rightarrow> JUndefined | Some x \<Rightarrow> JNum x)"

definition defaultConfig :: "world \<Rightarrow> jsval" where
  "defaultConfig w =
     JObj [(''browser'', JObj
       [(''browserName'', JStr ''chromium''),
        (''userDataDir'', JStr (tmpdir w)),
        (''launchOptions'', JObj
           [(''channel'', JStr ''chrome''),
            (''headless'', JBool (platform w = ''linux'' \<and> \<not> truthy_str (DISPLAY w)))]),
        (''contextOptions'', JObj [(''viewport'', JNull)])])]"

section \<open>The fragment of the command line\<close>

text \<open>The \<^verbatim>\<open>switch (cliOptions.browser)\<close>: the browser name and the channel.\<close>

definition browser_switch :: "string option \<Rightarrow> string \<times> string option" where
  "browser_switch b =
     (if b \<in> {Some ''chrome'', Some ''chrome-beta'', Some ''chrome-canary'', Some ''chrome-dev'',
               Some ''chromium'', Some ''msedge'', Some ''msedge-beta'', Some ''msedge-canary'',
               Some ''msedge-dev''}
      then (''chromium'', b)
      else if b = Some ''firefox'' then (''firefox'', None)
      else if b = Some ''webkit'' then (''webkit'', None)
      else (''chromium'', Some ''chrome''))"

definition findFreePort :: "world \<Rightarrow> error + int" where
  "findFreePort w = (case listen_result w of Inl msg \<Rightarrow> Inl (SystemError msg) | Inr p \<Rightarrow> Inr p)"

text \<open>
  The \<^verbatim>\<open>if\<close> chain of \<^verbatim>\<open>createUserDataDir\<close> that sets its variable
  \<^verbatim>\<open>cacheDirectory\<close>, or throws on a platform it does not know.
\<close>

definition cacheDirectory :: "world \<Rightarrow> error + string" where
  "cacheDirectory w =
     (if platform w = ''linux'' then
        Inr (if truthy_str (XDG_CACHE_HOME w) then the (XDG_CACHE_HOME w)
             else path_join w [homedir w, ''.cache''])
      else if platform w = ''darwin'' then
        Inr (path_join w [homedir w, ''Library'', ''Caches''])
      else if platform w = ''win32'' then
        Inr (if truthy_str (LOCALAPPDATA w) then the (LOCALAPPDATA w)
             else path_join w [homedir w, ''AppData'', ''Local''])
      else Inl (Error (''Unsupported platform: '' @ platform w)))"

definition createUserDataDir :: "world \<Rightarrow> string \<Rightarrow> string option \<Rightarrow> error + string \<times> world" where
  "createUserDataDir w browserName channel =
     (case cacheDirectory w of
        Inl e \<Rightarrow> Inl e
      | Inr dir \<Rightarrow>
          let result = path_join w [dir, ''ms-playwright'',
                ''mcp-'' @ (case channel of None \<Rightarrow> browserName | Some c \<Rightarrow> c) @ ''-profile'']
          in (case mkdir_recursive w result of
                Inl e \<Rightarrow> Inl e
              | Inr w' \<Rightarrow> Inr (result, w')))"

text \<open>\<^verbatim>\<open>s.split(',')\<close>.\<close>

fun split_at :: "char \<Rightarrow> string \<Rightarrow> string list" where
  "split_at c [] = [[]]"
| "split_at c (x # xs) =
     (if x = c then [] # split_at c xs
      else case split_at c xs of
             [] \<Rightarrow> [[x]]
           | y # ys \<Rightarrow> (x # y) # ys)"

text \<open>
  \<^verbatim>\<open>c.trim()\<close> removes, at both ends, the white space and the line terminators of
  ECMAScript: U+0009 to U+000D, U+0020, U+00A0, U+1680, U+2000 to U+200A, U+2028, U+2029,
  U+202F, U+205F, U+3000 and U+FEFF. A string is the UTF-8 encoding of its text, so these
  are the byte sequences of \<open>white_space\<close>.
\<close>

definition white_space :: "string list" where
  "white_space =
     [[CHR 0x09], [CHR 0x0A], [CHR 0x0B], [CHR 0x0C], [CHR 0x0D], [CHR 0x20],
      [CHR 0xC2, CHR 0xA0],
      [CHR 0xE1, CHR 0x9A, CHR 0x80],
      [CHR 0xE2, CHR 0x80, CHR 0x80], [CHR 0xE2, CHR 0x80, CHR 0x81],
      [CHR 0xE2, CHR 0x80, CHR 0x82], [CHR 0xE2, CHR 0x80, CHR 0x83],
      [CHR 0xE2, CHR 0x80, CHR 0x84], [CHR 0xE2, CHR 0x80, CHR 0x85],
      [CHR 0xE2, CHR 0x80, CHR 0x86], [CHR 0xE2, CHR 0x80, CHR 0x87],
      [CHR 0xE2, CHR 0x80, CHR 0x88], [CHR 0xE2, CHR 0x80, CHR 0x89],
      [CHR 0xE2, CHR 0x80, CHR 0x8A],
      [CHR 0xE2, CHR 0x80, CHR 0xA8], [CHR 0xE2, CHR 0x80, CHR 0xA9],
      [CHR 0xE2, CHR 0x80, CHR 0xAF],
      [CHR 0xE2, CHR 0x81, CHR 0x9F],
      [CHR 0xE3, CHR 0x80, CHR 0x80],
      [CHR 0xEF, CHR 0xBB, CHR 0xBF]]"

text \<open>Removes from the start of \<open>s\<close> every leading occurrence of one of the sequences \<open>ps\<close>.\<close>

function strip_start :: "string list \<Rightarrow> string \<Rightarrow> string" where
  "strip_start ps s =
     (case find (\<lambda>p. p \<noteq> [] \<and> prefix p s) ps of
        None \<Rightarrow> s
      | Some p \<Rightarrow> strip_start ps (drop (length p) s))"
  by pat_completeness auto
termination
  by (relation "measure (\<lambda>(ps, s). length s)") (auto simp: find_Some_iff prefix_def)

declare strip_start.simps [simp del]

definition trim :: "string \<Rightarrow> string" where
  "trim s = rev (strip_start (map rev white_space) (rev (strip_start white_space s)))"

definition configFromCLIOptions :: "world \<Rightarrow> CLIOptions \<Rightarrow> error + jsval \<times> world" where
  "configFromCLIOptions w cliOptions =
     (let (browserName, channel) = browser_switch (browser cliOptions);
          launchOptions =
            [(''channel'', opt_str channel),
             (''executablePath'', opt_str (executablePath cliOptions)),
             (''headless'', opt_bool (headless cliOptions))]
      in case (if browserName = ''chromium''
               then case findFreePort w of
                      Inl e \<Rightarrow> Inl e
                    | Inr p \<Rightarrow> Inr (AList.update ''webSocketPort'' (JNum p) launchOptions)
               else Inr launchOptions) of
           Inl e \<Rightarrow> Inl e
         | Inr launchOptions \<Rightarrow>
             let contextOptions =
                   (if truthy_str (device cliOptions)
                    then case devices w (the (device cliOptions)) of
                           None \<Rightarrow> JUndefined
                         | Some d \<Rightarrow> d
                    else JUndefined)
             in (case (case userDataDir cliOptions of
                         Some d \<Rightarrow> Inr (d, w)
                       | None \<Rightarrow> createUserDataDir w browserName channel) of
                   Inl e \<Rightarrow> Inl e
                 | Inr (dir, w') \<Rightarrow>
                    Inr (JObj
                      [(''browser'', JObj
                          [(''browserName'', JStr browserName),
                           (''userDataDir'', JStr dir),
                           (''launchOptions'', JObj launchOptions),
                           (''contextOptions'', contextOptions),
                           (''cdpEndpoint'', opt_str (cdpEndpoint cliOptions))]),
                       (''server'', JObj
                          [(''port'', opt_num (port cliOptions)),
                           (''host'', opt_str (host cliOptions))]),
                       (''capabilities'',
                          (case caps cliOptions of
                             None \<Rightarrow> JUndefined
                           | Some s \<Rightarrow> JArr (map (\<lambda>c. JStr (trim c)) (split_at CHR '','' s)))),
                       (''vision'', JBool (case vision cliOptions of None \<Rightarrow> False | Some b \<Rightarrow> b))],
                      w')))"

section \<open>The configuration file and the resolver\<close>

definition loadConfig :: "world \<Rightarrow> string option \<Rightarrow> error + jsval" where
  "loadConfig w configFile =
     (if \<not> truthy_str configFile then Inr (JObj [])
      else
        let file = the configFile;
            failed = (\<lambda>cause. Inl (Error (''Failed to load config file: '' @ file @ '', '' @ cause)))
        in case read_file w file of
             Inl cause \<Rightarrow> failed cause
           | Inr content \<Rightarrow>
               (case json_parse w content of
                  Inl cause \<Rightarrow> failed cause
                | Inr v \<Rightarrow> Inr v))"

definition resolveConfig :: "world \<Rightarrow> CLIOptions \<Rightarrow> error + jsval \<times> world" where
  "resolveConfig w cliOptions =
     (case loadConfig w (config cliOptions) of
        Inl e \<Rightarrow> Inl e
      | Inr cfg \<Rightarrow>
          (case configFromCLIOptions w cliOptions of
             Inl e \<Rightarrow> Inl e
           | Inr (cliOverrides, w') \<Rightarrow>
               (case mergeConfig cfg cliOverrides of
                  Inl e \<Rightarrow> Inl e
                | Inr merged \<Rightarrow>
                    (case mergeConfig (defaultConfig w) merged of
                       Inl e \<Rightarrow> Inl e
                     | Inr r \<Rightarrow> Inr (r, w')))))"

section \<open>The tools of a server\<close>

text \<open>
  A tool carries its capability tag; the rest of a tool (schema, handler) is the extension
  of the record. The two registries are lists built from modules of tools and are
  parameters of \<open>createServer\<close>, whose result here is the list of tools it hands to
  \<^verbatim>\<open>createServerWithTools\<close>.
\<close>

record tool =
  capability :: string

text \<open>
  \<^verbatim>\<open>caps.includes(c)\<close> for a truthy value \<open>caps\<close>: membership in an array, substring of
  a string, and a TypeError on any other value, which has no such method.
\<close>

fun js_includes :: "jsval \<Rightarrow> string \<Rightarrow> error + bool" where
  "js_includes (JArr xs) c = Inr (JStr c \<in> set xs)"
| "js_includes (JStr s) c = Inr (sublist c s)"
| "js_includes v c = Inl TypeError"

definition keep_tool :: "jsval \<Rightarrow> 'a tool_scheme \<Rightarrow> error + bool" where
  "keep_tool cfg t =
     (if \<not> truthy (getprop cfg ''capabilities'') then Inr True
      else if capability t = ''core'' then Inr True
      else js_includes (getprop cfg ''capabilities'') (capability t))"

text \<open>\<^verbatim>\<open>xs.filter(p)\<close> with a predicate that may throw: the first throw ends the filter.\<close>

fun filter_tools :: "('a \<Rightarrow> error + bool) \<Rightarrow> 'a list \<Rightarrow> error + 'a list" where
  "filter_tools p [] = Inr []"
| "filter_tools p (x # xs) =
     (case p x of
        Inl e \<Rightarrow> Inl e
      | Inr b \<Rightarrow>
          (case filter_tools p xs of
             Inl e \<Rightarrow> Inl e
           | Inr ys \<Rightarrow> Inr (if b then x # ys else ys)))"

definition createServer ::
  "jsval \<Rightarrow> 'a tool_scheme list \<Rightarrow> 'a tool_scheme list \<Rightarrow> error + 'a tool_scheme list" where
  "createServer cfg0 snapshotTools screenshotTools =
     (let cfg = (if cfg0 = JUndefined then JObj [] else cfg0)
      in if cfg = JNull then Inl TypeError
         else
           let allTools = (if truthy (getprop cfg ''vision'') then screenshotTools else snapshotTools)
           in filter_tools (keep_tool cfg) allTools)"

section \<open>The path.join of Node\<close>

text \<open>
  \<^verbatim>\<open>path.join\<close> as Node's \<^verbatim>\<open>lib/path.js\<close> computes it, in its two variants:
  \<^verbatim>\<open>path.posix\<close>, which is \<^verbatim>\<open>path\<close> on every platform but \<^verbatim>\<open>win32\<close>, and
  \<^verbatim>\<open>path.win32\<close>. Both join the segments that are not empty with the separator and
  normalize the result: empty segments and \<^verbatim>\<open>.\<close> are dropped, \<^verbatim>\<open>..\<close> removes the
  segment before it, a separator at the end is kept. The Windows variant takes both
  slashes for separators and keeps a drive or UNC root in front.
\<close>

fun split_by :: "(char \<Rightarrow> bool) \<Rightarrow> string \<Rightarrow> string list" where
  "split_by sep [] = [[]]"
| "split_by sep (x # xs) =
     (if sep x then [] # split_by sep xs
      else case split_by sep xs of
             [] \<Rightarrow> [[x]]
           | y # ys \<Rightarrow> (x # y) # ys)"

fun join_with :: "string \<Rightarrow> string list \<Rightarrow> string" where
  "join_with s [] = []"
| "join_with s [x] = x"
| "join_with s (x # y # ys) = x @ s @ join_with s (y # ys)"

text \<open>
  One segment of \<^verbatim>\<open>normalizeString\<close>, the result so far being the list of its
  segments.
\<close>

definition normalize_step :: "bool \<Rightarrow> string list \<Rightarrow> string \<Rightarrow> string list" where
  "normalize_step allowAboveRoot res seg =
     (if seg = [] \<or> seg = ''.'' then res
      else if seg = ''..'' then
        (if res \<noteq> [] \<and> last res \<noteq> ''..'' then butlast res
         else if allowAboveRoot then res @ [''..'']
         else res)
      else res @ [seg])"

definition normalizeString :: "string \<Rightarrow> bool \<Rightarrow> string \<Rightarrow> (char \<Rightarrow> bool) \<Rightarrow> string" where
  "normalizeString path allowAboveRoot separator isPathSeparator =
     join_with separator (foldl (normalize_step allowAboveRoot) [] (split_by isPathSeparator path))"

definition isPosixPathSeparator :: "char \<Rightarrow> bool" where
  "isPosixPathSeparator c = (c = CHR ''/'')"

definition isPathSeparator :: "char \<Rightarrow> bool" where
  "isPathSeparator c = (c = CHR ''/'' \<or> c = CHR 0x5C)"

definition isWindowsDeviceRoot :: "char \<Rightarrow> bool" where
  "isWindowsDeviceRoot c =
     ((65 \<le> (of_char c :: nat) \<and> (of_char c :: nat) \<le> 90) \<or>
      (97 \<le> (of_char c :: nat) \<and> (of_char c :: nat) \<le> 122))"

definition posix_normalize :: "string \<Rightarrow> string" where
  "posix_normalize path =
     (if path = [] then ''.''
      else
        let isAbsolute = isPosixPathSeparator (hd path);
            trailingSeparator = isPosixPathSeparator (last path);
            p = normalizeString path (\<not> isAbsolute) ''/'' isPosixPathSeparator
        in if p = [] then (if isAbsolute then ''/'' else if trailingSeparator then ''./'' else ''.'')
           else (if isAbsolute then ''/'' else []) @ p @ (if trailingSeparator then ''/'' else []))"

definition posix_join :: "string list \<Rightarrow> string" where
  "posix_join args =
     (let joined = join_with ''/'' (filter (\<lambda>arg. arg \<noteq> []) args)
      in if joined = [] then ''.'' else posix_normalize joined)"

text \<open>
  The end of \<^verbatim>\<open>win32.normalize\<close>, once the root is known: \<open>dev\<close> is the drive or
  the UNC root, if any, and \<open>rest\<close> the path after the root.
\<close>

definition win32_finish :: "string option \<Rightarrow> bool \<Rightarrow> string \<Rightarrow> string \<Rightarrow> string" where
  "win32_finish dev isAbsolute rest path =
     (let tail = normalizeString rest (\<not> isAbsolute) [CHR 0x5C] isPathSeparator;
          tail = (if tail = [] \<and> \<not> isAbsolute then ''.'' else tail);
          tail = (if tail \<noteq> [] \<and> isPathSeparator (last path) then tail @ [CHR 0x5C] else tail)
      in case dev of
           None \<Rightarrow> (if isAbsolute then CHR 0x5C # tail else tail)
         | Some d \<Rightarrow> (if isAbsolute then d @ CHR 0x5C # tail else d @ tail))"

text \<open>
  The root of a path that starts with two separators: a UNC root
  \<^verbatim>\<open>\\server\share\<close> when a server name, separators and a share name follow, and
  else none. \<open>rest\<close> is the path after the two separators.
\<close>

definition win32_unc :: "string \<Rightarrow> string \<Rightarrow> string" where
  "win32_unc rest path =
     (let firstPart = takeWhile (\<lambda>c. \<not> isPathSeparator c) rest;
          r1 = dropWhile (\<lambda>c. \<not> isPathSeparator c) rest;
          r2 = dropWhile isPathSeparator r1;
          secondPart = takeWhile (\<lambda>c. \<not> isPathSeparator c) r2;
          r3 = dropWhile (\<lambda>c. \<not> isPathSeparator c) r2
      in if firstPart \<noteq> [] \<and> r1 \<noteq> [] \<and> r2 \<noteq> [] then
           (if r3 = [] then
              [CHR 0x5C, CHR 0x5C] @ firstPart @ [CHR 0x5C] @ secondPart @ [CHR 0x5C]
            else
              win32_finish
                (Some ([CHR 0x5C, CHR 0x5C] @ firstPart @ [CHR 0x5C] @ secondPart))
                True r3 path)
         else win32_finish None True path path)"

definition win32_normalize :: "string \<Rightarrow> string" where
  "win32_normalize path =
     (case path of
        [] \<Rightarrow> ''.''
      | [c] \<Rightarrow> (if isPosixPathSeparator c then [CHR 0x5C] else path)
      | c0 # c1 # rest \<Rightarrow>
          if isPathSeparator c0 then
            (if isPathSeparator c1 then win32_unc rest path
             else win32_finish None True (c1 # rest) path)
          else if isWindowsDeviceRoot c0 \<and> c1 = CHR '':'' then
            (if rest \<noteq> [] \<and> isPathSeparator (hd rest)
             then win32_finish (Some [c0, c1]) True (tl rest) path
             else win32_finish (Some [c0, c1]) False rest path)
          else win32_finish None False path path)"

text \<open>
  \<^verbatim>\<open>win32.join\<close>. A first segment that starts with exactly two separators is taken
  for a UNC path and the joined path is left as it is; otherwise two or more separators at
  the start of the joined path are replaced by one, so that \<^verbatim>\<open>win32.normalize\<close> does
  not take them for a UNC root.
\<close>

definition win32_join :: "string list \<Rightarrow> string" where
  "win32_join args =
     (let parts = filter (\<lambda>arg. arg \<noteq> []) args
      in if parts = [] then ''.''
         else
           let joined = join_with [CHR 0x5C] parts;
               firstPart = hd parts;
               needsReplace =
                 (\<not> (2 < length firstPart \<and> isPathSeparator (firstPart ! 0) \<and>
                     isPathSeparator (firstPart ! 1) \<and> \<not> isPathSeparator (firstPart ! 2)));
               slashCount = length (takeWhile isPathSeparator joined)
           in win32_normalize
                (if needsReplace \<and> 2 \<le> slashCount
                 then CHR 0x5C # drop slashCount joined
                 else joined))"

text \<open>\<^verbatim>\<open>path.join\<close> on the platform \<open>plat\<close> (\<^verbatim>\<open>process.platform\<close>).\<close>

definition node_path_join :: "string \<Rightarrow> string list \<Rightarrow> string" where
  "node_path_join plat = (if plat = ''win32'' then win32_join else posix_join)"

text \<open>
  A segment that normalization keeps as it is: not empty, with no separator, and neither
  \<^verbatim>\<open>.\<close> nor \<^verbatim>\<open>..\<close>.
\<close>

definition plain_segment :: "(char \<Rightarrow> bool) \<Rightarrow> string \<Rightarrow> bool" where
  "plain_segment sep b = (b \<noteq> [] \<and> (\<forall>c \<in> set b. \<not> sep c) \<and> b \<noteq> ''.'' \<and> b \<noteq> ''..'')"

text \<open>
  What \<^verbatim>\<open>normalizeString\<close> yields in front of a last segment that it keeps, and what
  \<^verbatim>\<open>win32.normalize\<close> puts in front of that segment.
\<close>

definition normalized_prefix :: "string \<Rightarrow> bool \<Rightarrow> string \<Rightarrow> (char \<Rightarrow> bool) \<Rightarrow> string" where
  "normalized_prefix path allowAboveRoot separator sep =
     (let res = foldl (normalize_step allowAboveRoot) [] (split_by sep path)
      in if res = [] then [] else join_with separator res @ separator)"

definition win32_prefix :: "string option \<Rightarrow> bool \<Rightarrow> string \<Rightarrow> string" where
  "win32_prefix dev isAbsolute x =
     (case dev of
        None \<Rightarrow> (if isAbsolute then [CHR 0x5C] else [])
      | Some d \<Rightarrow> (if isAbsolute then d @ [CHR 0x5C] else d)) @
     normalized_prefix x (\<not> isAbsolute) [CHR 0x5C] isPathSeparator"

text \<open>
  The environment joins as Node does: its \<^verbatim>\<open>path.join\<close> agrees with \<open>node_path_join\<close>
  on the joins of the cache directory with \<^verbatim>\<open>ms-playwright\<close> and a profile name.
\<close>

definition joins_as_node :: "world \<Rightarrow> bool" where
  "joins_as_node w =
     (\<forall>d name. cacheDirectory w = Inr d \<longrightarrow>
        path_join w [d, ''ms-playwright'', name] =
          node_path_join (platform w) [d, ''ms-playwright'', name])"

section \<open>Vocabulary of the properties\<close>

abbreviation browser_of :: "jsval \<Rightarrow> jsval" where
  "browser_of c \<equiv> getprop c ''browser''"

abbreviation launchOptions_of :: "jsval \<Rightarrow> jsval" where
  "launchOptions_of c \<equiv> getprop (getprop c ''browser'') ''launchOptions''"

abbreviation contextOptions_of :: "jsval \<Rightarrow> jsval" where
  "contextOptions_of c \<equiv> getprop (getprop c ''browser'') ''contextOptions''"

text \<open>
  A configuration field by its place: at the top of the configuration, in \<open>browser\<close>, in
  \<open>browser.launchOptions\<close> or in \<open>browser.contextOptions\<close>. The places that \<open>mergeConfig\<close>
  rebuilds rather than copies (\<open>browser\<close>, the two option groups, the forced
  \<open>assistantMode\<close>) are not scalar fields.
\<close>

datatype field =
    Top string
  | InBrowser string
  | InLaunchOptions string
  | InContextOptions string

fun holder :: "jsval \<Rightarrow> field \<Rightarrow> jsval" where
  "holder c (Top k) = c"
| "holder c (InBrowser k) = browser_of c"
| "holder c (InLaunchOptions k) = launchOptions_of c"
| "holder c (InContextOptions k) = contextOptions_of c"

fun field_key :: "field \<Rightarrow> string" where
  "field_key (Top k) = k"
| "field_key (InBrowser k) = k"
| "field_key (InLaunchOptions k) = k"
| "field_key (InContextOptions k) = k"

definition read_field :: "jsval \<Rightarrow> field \<Rightarrow> jsval" where
  "read_field c f = getprop (holder c f) (field_key f)"

text \<open>The fragment has the field as a key, whatever its value.\<close>

definition has_field :: "jsval \<Rightarrow> field \<Rightarrow> bool" where
  "has_field c f = has_key (holder c f) (field_key f)"

text \<open>The fragment gives the field a value: reading it does not yield \<open>undefined\<close>.\<close>

definition defines_field :: "jsval \<Rightarrow> field \<Rightarrow> bool" where
  "defines_field c f = (read_field c f \<noteq> JUndefined)"

fun scalar_field :: "field \<Rightarrow> bool" where
  "scalar_field (Top k) = (k \<noteq> ''browser'')"
| "scalar_field (InBrowser k) = (k \<noteq> ''launchOptions'' \<and> k \<noteq> ''contextOptions'')"
| "scalar_field (InLaunchOptions k) = (k \<noteq> ''assistantMode'')"
| "scalar_field (InContextOptions k) = True"

text \<open>The two readings of "C's value if C defines it, else F's, else D's".\<close>

definition precedence_by_value :: "jsval \<Rightarrow> jsval \<Rightarrow> jsval \<Rightarrow> field \<Rightarrow> jsval" where
  "precedence_by_value D F C f =
     (if defines_field C f then read_field C f
      else if defines_field F f then read_field F f
      else read_field D f)"

definition precedence_by_key :: "jsval \<Rightarrow> jsval \<Rightarrow> jsval \<Rightarrow> field \<Rightarrow> jsval" where
  "precedence_by_key D F C f =
     (if has_field C f then read_field C f
      else if has_field F f then read_field F f
      else read_field D f)"

text \<open>The parts of the result of \<open>configFromCLIOptions\<close>, named for the proofs.\<close>

definition cli_launchOptions :: "CLIOptions \<Rightarrow> (string \<times> jsval) list" where
  "cli_launchOptions cli =
     [(''channel'', opt_str (snd (browser_switch (browser cli)))),
      (''executablePath'', opt_str (executablePath cli)),
      (''headless'', opt_bool (headless cli))]"

definition cli_fragment :: "world \<Rightarrow> CLIOptions \<Rightarrow> (string \<times> jsval) list \<Rightarrow> string \<Rightarrow> jsval" where
  "cli_fragment w cli lo dir =
     JObj
       [(''browser'', JObj
          [(''browserName'', JStr (fst (browser_switch (browser cli)))),
           (''userDataDir'', JStr dir),
           (''launchOptions'', JObj lo),
           (''contextOptions'',
              (if truthy_str (device cli)
               then case devices w (the (device cli)) of None \<Rightarrow> JUndefined | Some d \<Rightarrow> d
               else JUndefined)),
           (''cdpEndpoint'', opt_str (cdpEndpoint cli))]),
        (''server'', JObj [(''port'', opt_num (port cli)), (''host'', opt_str (host cli))]),
        (''capabilities'',
           (case caps cli of
              None \<Rightarrow> JUndefined
            | Some s \<Rightarrow> JArr (map (\<lambda>c. JStr (trim c)) (split_at CHR '','' s)))),
        (''vision'', JBool (case vision cli of None \<Rightarrow> False | Some b \<Rightarrow> b))]"

section \<open>Example inputs\<close>

text \<open>
  A Linux host with no display and no \<^verbatim>\<open>XDG_CACHE_HOME\<close>, where every directory can be
  made and the file \<^verbatim>\<open>cfg.json\<close> holds the configuration \<open>ex_file\<close>; \<open>ex_join\<close> joins
  path segments with a slash.
\<close>

definition ex_join :: "string list \<Rightarrow> string" where
  "ex_join ps = foldr (\<lambda>p acc. if acc = [] then p else p @ ''/'' @ acc) ps []"

definition ex_file :: jsval where
  "ex_file =
     JObj [(''browser'', JObj
             [(''launchOptions'', JObj
                 [(''executablePath'', JStr ''/opt/chrome''),
                  (''assistantMode'', JBool False)])]),
           (''vision'', JBool True),
           (''server'', JObj [(''port'', JNum 8080), (''host'', JStr ''0.0.0.0'')]),
           (''outputDir'', JStr ''/out'')]"

definition ex_world :: world where
  "ex_world =
     \<lparr>platform = ''linux'', tmpdir = ''/tmp'', homedir = ''/home/u'',
      XDG_CACHE_HOME = None, LOCALAPPDATA = None, DISPLAY = None,
      path_join = ex_join, dirs = [], mkdir_error = (\<lambda>p. None),
      listen_result = Inr 40000, devices = (\<lambda>d. None),
      read_file = (\<lambda>p. if p = ''cfg.json'' then Inr ''(the text of cfg.json)''
                        else Inl ''Error: ENOENT: no such file or directory''),
      json_parse = (\<lambda>s. if s = ''(the text of cfg.json)'' then Inr ex_file
                         else Inl ''SyntaxError: Unexpected token'')\<rparr>"

definition no_options :: CLIOptions where
  "no_options =
     \<lparr>browser = None, caps = None, cdpEndpoint = None, executablePath = None,
      headless = None, device = None, userDataDir = None, port = None, host = None,
      vision = None, config = None\<rparr>"

definition ex_cli :: CLIOptions where
  "ex_cli = no_options\<lparr>userDataDir := Some ''/tmp/profile'', config := Some ''cfg.json''\<rparr>"

definition ex_base :: jsval where
  "ex_base =
     JObj [(''browser'', JObj
             [(''launchOptions'', JObj
                 [(''executablePath'', JStr ''/opt/chrome''),
                  (''assistantMode'', JBool False)]),
              (''contextOptions'', JObj [(''viewport'', JNull)])]),
           (''server'', JObj [(''port'', JNum 8080), (''host'', JStr ''0.0.0.0'')])]"

definition ex_overrides :: jsval where
  "ex_overrides =
     JObj [(''browser'', JObj
             [(''launchOptions'', JObj [(''headless'', JBool True)]),
              (''contextOptions'', JObj [(''locale'', JStr ''en-GB'')])]),
           (''server'', JObj [(''port'', JNum 9000)])]"

text \<open>The command line of the scenario with Firefox.\<close>

definition firefox_options :: CLIOptions where
  "firefox_options =
     no_options\<lparr>browser := Some ''firefox'', headless := Some True, caps := Some ''core,tabs''\<rparr>"

text \<open>The channel tokens of the \<^verbatim>\<open>switch\<close> that select Chromium.\<close>

definition chromium_tokens :: "string set" where
  "chromium_tokens =
     {''chrome'', ''chrome-beta'', ''chrome-canary'', ''chrome-dev'', ''chromium'',
      ''msedge'', ''msedge-beta'', ''msedge-canary'', ''msedge-dev''}"

text \<open>\<^verbatim>\<open>options.channel ?? options.browserName\<close>, the name in the profile directory.\<close>

definition profile_key :: "string \<Rightarrow> string option \<Rightarrow> string" where
  "profile_key browserName channel = (case channel of None \<Rightarrow> browserName | Some c \<Rightarrow> c)"

text \<open>The elements of an array; a value that is not an array has none.\<close>

fun elements :: "jsval \<Rightarrow> jsval list" where
  "elements (JArr xs) = xs"
| "elements v = []"

text \<open>Tools with a name, and two small registries.\<close>

record named_tool = tool +
  tool_name :: string

definition ex_snapshotTools :: "named_tool list" where
  "ex_snapshotTools =
     [\<lparr>capability = ''core'', tool_name = ''browser_snapshot''\<rparr>,
      \<lparr>capability = ''console'', tool_name = ''browser_console_messages''\<rparr>,
      \<lparr>capability = ''network'', tool_name = ''browser_network_requests''\<rparr>,
      \<lparr>capability = ''core'', tool_name = ''browser_click''\<rparr>]"

definition ex_screenshotTools :: "named_tool list" where
  "ex_screenshotTools =
     [\<lparr>capability = ''core'', tool_name = ''browser_screen_capture''\<rparr>,
      \<lparr>capability = ''console'', tool_name = ''browser_console_messages''\<rparr>,
      \<lparr>capability = ''network'', tool_name = ''browser_network_requests''\<rparr>,
      \<lparr>capability = ''core'', tool_name = ''browser_screen_click''\<rparr>]"

definition ex_config :: jsval where
  "ex_config = JObj [(''capabilities'', JArr [JStr ''console'']), (''vision'', JBool True)]"

text \<open>
  The hosts of \<open>ex_world\<close> with the \<^verbatim>\<open>path.join\<close> of Node, on Linux and on Windows
  with \<^verbatim>\<open>LOCALAPPDATA\<close> set; \<open>ex_win32_dir\<close> is the profile directory of a name there.
\<close>

definition ex_node_world :: world where
  "ex_node_world = ex_world\<lparr>path_join := node_path_join ''linux''\<rparr>"

definition ex_win32_world :: world where
  "ex_win32_world =
     ex_world\<lparr>platform := ''win32'',
               LOCALAPPDATA := Some (''C:'' @ [CHR 0x5C] @ ''Users'' @ [CHR 0x5C] @ ''u''),
               path_join := node_path_join ''win32''\<rparr>"

definition ex_win32_dir :: "string \<Rightarrow> string" where
  "ex_win32_dir name =
     ''C:'' @ [CHR 0x5C] @ ''Users'' @ [CHR 0x5C] @ ''u'' @ [CHR 0x5C] @ ''ms-playwright'' @
     [CHR 0x5C] @ name"

section \<open>Properties of objects and of the merge\<close>

lemma map_of_spread2:
  "map_of (spread [a, b]) = map_of (own_props a) ++ map_of (own_props b)"
  by (simp add: spread_def merge_conv')

lemma map_of_spread3:
  "map_of (spread [a, b, c]) =
     map_of (own_props a) ++ map_of (own_props b) ++ map_of (own_props c)"
  by (simp add: spread_def merge_conv')

lemma mergeConfig_Inr:
  "(\<exists>r. mergeConfig base overrides = Inr r) \<longleftrightarrow> \<not> nullish base \<and> \<not> nullish overrides"
  by (simp add: mergeConfig_def Let_def)

lemma has_key_iff: "has_key v k \<longleftrightarrow> map_of (own_props v) k \<noteq> None"
  by (simp add: has_key_def map_of_eq_None_iff)

lemma getprop_absent: "\<not> has_key v k \<Longrightarrow> getprop v k = JUndefined"
  by (simp add: has_key_iff getprop_def)

lemma getprop_spread2:
  "getprop (JObj (spread [a, b])) k = (if has_key b k then getprop b k else getprop a k)"
  by (auto simp: getprop_def has_key_iff map_of_spread2 map_add_def split: option.splits)

lemma getprop_spread3:
  "getprop (JObj (spread [a, b, c])) k =
     (if has_key c k then getprop c k else if has_key b k then getprop b k else getprop a k)"
  by (auto simp: getprop_def has_key_iff map_of_spread3 map_add_def split: option.splits)

lemma has_key_spread2: "has_key (JObj (spread [a, b])) k \<longleftrightarrow> has_key a k \<or> has_key b k"
  by (auto simp: has_key_iff map_of_spread2)

lemma has_key_spread3:
  "has_key (JObj (spread [a, b, c])) k \<longleftrightarrow> has_key a k \<or> has_key b k \<or> has_key c k"
  by (auto simp: has_key_iff map_of_spread3)

lemma has_key_Nil: "has_key (JObj []) k \<longleftrightarrow> False"
  by (simp add: has_key_def)

lemma has_key_Cons: "has_key (JObj ((k', v) # kvs)) k \<longleftrightarrow> k = k' \<or> has_key (JObj kvs) k"
  by (auto simp: has_key_def)

lemma getprop_Nil: "getprop (JObj []) k = JUndefined"
  by (simp add: getprop_def)

lemma getprop_Cons: "getprop (JObj ((k', v) # kvs)) k = (if k = k' then v else getprop (JObj kvs) k)"
  by (simp add: getprop_def)

lemmas obj_simps = has_key_Nil has_key_Cons getprop_Nil getprop_Cons
  getprop_spread2 getprop_spread3 has_key_spread2 has_key_spread3

lemma mergeConfig_eq:
  assumes "mergeConfig base overrides = Inr r"
  shows "r = JObj (spread [base, overrides, JObj [(''browser'', JObj (spread
           [browser_of base, browser_of overrides,
            JObj [(''launchOptions'', JObj (spread
                     [launchOptions_of base, launchOptions_of overrides,
                      JObj [(''assistantMode'', JBool True)]])),
                  (''contextOptions'', JObj (spread
                     [contextOptions_of base, contextOptions_of overrides]))]]))]])"
  using assms by (simp add: mergeConfig_def Let_def split: if_splits)

lemma mergeConfig_top:
  assumes "mergeConfig base overrides = Inr r" and "k \<noteq> ''browser''"
  shows "getprop r k = (if has_key overrides k then getprop overrides k else getprop base k)"
    and "has_key r k \<longleftrightarrow> has_key base k \<or> has_key overrides k"
  using assms(2) by (simp_all add: mergeConfig_eq [OF assms(1)] obj_simps)

lemma mergeConfig_browser_eq:
  assumes "mergeConfig base overrides = Inr r"
  shows "browser_of r = JObj (spread
           [browser_of base, browser_of overrides,
            JObj [(''launchOptions'', JObj (spread
                     [launchOptions_of base, launchOptions_of overrides,
                      JObj [(''assistantMode'', JBool True)]])),
                  (''contextOptions'', JObj (spread
                     [contextOptions_of base, contextOptions_of overrides]))]])"
  by (simp add: mergeConfig_eq [OF assms] obj_simps)

lemma mergeConfig_launchOptions_eq:
  assumes "mergeConfig base overrides = Inr r"
  shows "launchOptions_of r = JObj (spread
           [launchOptions_of base, launchOptions_of overrides,
            JObj [(''assistantMode'', JBool True)]])"
  unfolding mergeConfig_browser_eq [OF assms]
  by (simp add: obj_simps)

lemma mergeConfig_contextOptions_eq:
  assumes "mergeConfig base overrides = Inr r"
  shows "contextOptions_of r = JObj (spread [contextOptions_of base, contextOptions_of overrides])"
  unfolding mergeConfig_browser_eq [OF assms]
  by (simp add: obj_simps)

lemma mergeConfig_browser:
  assumes "mergeConfig base overrides = Inr r" and "k \<noteq> ''launchOptions''" and "k \<noteq> ''contextOptions''"
  shows "getprop (browser_of r) k =
           (if has_key (browser_of overrides) k then getprop (browser_of overrides) k
            else getprop (browser_of base) k)"
    and "has_key (browser_of r) k \<longleftrightarrow> has_key (browser_of base) k \<or> has_key (browser_of overrides) k"
  unfolding mergeConfig_browser_eq [OF assms(1)]
  using assms(2,3) by (simp_all add: obj_simps)

lemma mergeConfig_launchOptions:
  assumes "mergeConfig base overrides = Inr r" and "k \<noteq> ''assistantMode''"
  shows "getprop (launchOptions_of r) k =
           (if has_key (launchOptions_of overrides) k then getprop (launchOptions_of overrides) k
            else getprop (launchOptions_of base) k)"
    and "has_key (launchOptions_of r) k \<longleftrightarrow>
           has_key (launchOptions_of base) k \<or> has_key (launchOptions_of overrides) k"
  unfolding mergeConfig_launchOptions_eq [OF assms(1)]
  using assms(2) by (simp_all add: obj_simps)

lemma mergeConfig_contextOptions:
  assumes "mergeConfig base overrides = Inr r"
  shows "getprop (contextOptions_of r) k =
           (if has_key (contextOptions_of overrides) k then getprop (contextOptions_of overrides) k
            else getprop (contextOptions_of base) k)"
    and "has_key (contextOptions_of r) k \<longleftrightarrow>
           has_key (contextOptions_of base) k \<or> has_key (contextOptions_of overrides) k"
  unfolding mergeConfig_contextOptions_eq [OF assms(1)]
  by (simp_all add: obj_simps)

lemma mergeConfig_assistantMode:
  assumes "mergeConfig base overrides = Inr r"
  shows "getprop (launchOptions_of r) ''assistantMode'' = JBool True"
  unfolding mergeConfig_launchOptions_eq [OF assms]
  by (simp add: obj_simps)

lemma configFromCLIOptions_eq:
  "configFromCLIOptions w cli =
     (case (if fst (browser_switch (browser cli)) = ''chromium''
            then case findFreePort w of
                   Inl e \<Rightarrow> Inl e
                 | Inr p \<Rightarrow> Inr (cli_launchOptions cli @ [(''webSocketPort'', JNum p)])
            else Inr (cli_launchOptions cli)) of
        Inl e \<Rightarrow> Inl e
      | Inr lo \<Rightarrow>
          (case (case userDataDir cli of
                   Some d \<Rightarrow> Inr (d, w)
                 | None \<Rightarrow> createUserDataDir w (fst (browser_switch (browser cli)))
                             (snd (browser_switch (browser cli)))) of
             Inl e \<Rightarrow> Inl e
           | Inr (dir, w') \<Rightarrow> Inr (cli_fragment w cli lo dir, w')))"
  unfolding configFromCLIOptions_def cli_launchOptions_def cli_fragment_def Let_def case_prod_beta
  by (simp cong: sum.case_cong if_cong)

lemma resolveConfig_Inr:
  assumes "resolveConfig w cli = Inr (r, w')"
  obtains F C m where
    "loadConfig w (config cli) = Inr F"
    "configFromCLIOptions w cli = Inr (C, w')"
    "mergeConfig F C = Inr m"
    "mergeConfig (defaultConfig w) m = Inr r"
  using assms unfolding resolveConfig_def
  by (auto split: sum.splits prod.splits)


lemma mergeConfig_field:
  assumes "mergeConfig base overrides = Inr r" and "scalar_field f"
  shows "read_field r f = (if has_field overrides f then read_field overrides f else read_field base f)"
    and "has_field r f \<longleftrightarrow> has_field base f \<or> has_field overrides f"
  using assms
  by (cases f; simp add: read_field_def has_field_def mergeConfig_top mergeConfig_browser
        mergeConfig_launchOptions mergeConfig_contextOptions)+


lemma ex_load: "loadConfig ex_world (config ex_cli) = Inr ex_file"
  by (simp add: loadConfig_def ex_world_def ex_cli_def no_options_def truthy_str_def Let_def)

lemma ex_cli_switch: "browser_switch (browser ex_cli) = (''chromium'', Some ''chrome'')"
  by (simp add: browser_switch_def ex_cli_def no_options_def)

lemma ex_cli_fragment:
  "configFromCLIOptions ex_world ex_cli =
     Inr (cli_fragment ex_world ex_cli
            (cli_launchOptions ex_cli @ [(''webSocketPort'', JNum 40000)]) ''/tmp/profile'',
          ex_world)"
proof -
  have "findFreePort ex_world = Inr 40000"
    by (simp add: findFreePort_def ex_world_def)
  moreover have "userDataDir ex_cli = Some ''/tmp/profile''"
    by (simp add: ex_cli_def)
  ultimately show ?thesis
    by (simp add: configFromCLIOptions_eq ex_cli_switch)
qed

lemma ex_resolve: "\<exists>r. resolveConfig ex_world ex_cli = Inr (r, ex_world)"
  by (simp add: resolveConfig_def ex_load ex_cli_fragment mergeConfig_def Let_def nullish_def
        ex_file_def cli_fragment_def defaultConfig_def)

section \<open>The forced assistant-mode marker\<close>

lemma ex_merge_ok: "\<not> nullish ex_base \<and> \<not> nullish ex_overrides"
  by (simp add: ex_base_def ex_overrides_def nullish_def)

text \<open>
  C2. The result of \<open>mergeConfig\<close> has \<open>browser.launchOptions.assistantMode = true\<close>
  whatever the two inputs say, and \<open>mergeConfig\<close> returns a result for all inputs that are
  objects; so has every configuration that \<open>resolveConfig\<close> returns.
\<close>

theorem forced_assistantMode:
  "(\<not> nullish base \<and> \<not> nullish overrides \<longrightarrow> (\<exists>r. mergeConfig base overrides = Inr r)) \<and>
   (mergeConfig base overrides = Inr r \<longrightarrow>
      getprop (launchOptions_of r) ''assistantMode'' = JBool True) \<and>
   (resolveConfig w cli = Inr (r', w') \<longrightarrow>
      getprop (launchOptions_of r') ''assistantMode'' = JBool True)"
proof (intro conjI impI)
  assume "\<not> nullish base \<and> \<not> nullish overrides"
  then show "\<exists>r. mergeConfig base overrides = Inr r"
    by (simp add: mergeConfig_Inr)
next
  assume "mergeConfig base overrides = Inr r"
  then show "getprop (launchOptions_of r) ''assistantMode'' = JBool True"
    by (rule mergeConfig_assistantMode)
next
  assume "resolveConfig w cli = Inr (r', w')"
  then obtain m where "mergeConfig (defaultConfig w) m = Inr r'"
    by (rule resolveConfig_Inr)
  then show "getprop (launchOptions_of r') ''assistantMode'' = JBool True"
    by (rule mergeConfig_assistantMode)
qed

theorem forced_assistantMode_witness:
  "getprop (launchOptions_of ex_base) ''assistantMode'' = JBool False \<and>
   (case mergeConfig ex_base ex_overrides of
      Inl e \<Rightarrow> False
    | Inr r \<Rightarrow> getprop (launchOptions_of r) ''assistantMode'' = JBool True) \<and>
   (case mergeConfig ex_overrides ex_base of
      Inl e \<Rightarrow> False
    | Inr r \<Rightarrow> getprop (launchOptions_of r) ''assistantMode'' = JBool True) \<and>
   (case resolveConfig ex_world ex_cli of
      Inl e \<Rightarrow> False
    | Inr (r, w) \<Rightarrow> getprop (launchOptions_of r) ''assistantMode'' = JBool True)"
proof -
  have off: "getprop (launchOptions_of ex_base) ''assistantMode'' = JBool False"
    by (simp add: ex_base_def obj_simps)
  obtain r1 where r1: "mergeConfig ex_base ex_overrides = Inr r1"
    using forced_assistantMode [of ex_base ex_overrides] ex_merge_ok by blast
  obtain r2 where r2: "mergeConfig ex_overrides ex_base = Inr r2"
    using forced_assistantMode [of ex_overrides ex_base] ex_merge_ok by blast
  obtain r3 where r3: "resolveConfig ex_world ex_cli = Inr (r3, ex_world)"
    using ex_resolve by blast
  from forced_assistantMode [of ex_base ex_overrides r1] r1
  have 1: "getprop (launchOptions_of r1) ''assistantMode'' = JBool True" by blast
  from forced_assistantMode [of ex_overrides ex_base r2] r2
  have 2: "getprop (launchOptions_of r2) ''assistantMode'' = JBool True" by blast
  from forced_assistantMode [of _ _ _ ex_world ex_cli r3 ex_world] r3
  have 3: "getprop (launchOptions_of r3) ''assistantMode'' = JBool True" by blast
  show ?thesis
    by (simp add: off r1 r2 r3 1 2 3)
qed

section \<open>The server group and the nested option groups\<close>

lemma ex_merge: "\<exists>r. mergeConfig ex_base ex_overrides = Inr r"
  using ex_merge_ok by (simp add: mergeConfig_Inr)

lemma ex_file_not_nullish: "\<not> nullish ex_file"
  by (simp add: ex_file_def nullish_def)

text \<open>
  C6. When \<open>overrides.server\<close> is defined, the \<open>server\<close> of the merge is \<open>overrides.server\<close>
  itself, so no property of \<open>base.server\<close> is in it; a property of \<open>base.browser\<close> that
  \<open>overrides.browser\<close> has no key for is kept.
\<close>

theorem server_replaced_wholesale:
  assumes "mergeConfig base overrides = Inr r"
      and "getprop overrides ''server'' \<noteq> JUndefined"
  shows "getprop r ''server'' = getprop overrides ''server'' \<and>
         (\<forall>k. getprop (getprop r ''server'') k = getprop (getprop overrides ''server'') k) \<and>
         (\<forall>k. k \<noteq> ''launchOptions'' \<and> k \<noteq> ''contextOptions'' \<and> \<not> has_key (browser_of overrides) k \<longrightarrow>
              getprop (browser_of r) k = getprop (browser_of base) k)"
proof -
  from assms(2) have "has_key overrides ''server''"
    using getprop_absent by blast
  with assms(1) have "getprop r ''server'' = getprop overrides ''server''"
    by (simp add: mergeConfig_top)
  moreover have "\<forall>k. k \<noteq> ''launchOptions'' \<and> k \<noteq> ''contextOptions'' \<and> \<not> has_key (browser_of overrides) k \<longrightarrow>
              getprop (browser_of r) k = getprop (browser_of base) k"
    using assms(1) by (simp add: mergeConfig_browser)
  ultimately show ?thesis by simp
qed

theorem server_replaced_wholesale_witness:
  "getprop ex_overrides ''server'' \<noteq> JUndefined \<and>
   getprop (getprop ex_base ''server'') ''host'' = JStr ''0.0.0.0'' \<and>
   (case mergeConfig ex_base ex_overrides of
      Inl e \<Rightarrow> False
    | Inr r \<Rightarrow> getprop r ''server'' = JObj [(''port'', JNum 9000)] \<and>
              getprop (getprop r ''server'') ''host'' = JUndefined)"
proof -
  have d: "getprop ex_overrides ''server'' \<noteq> JUndefined"
    by (simp add: ex_overrides_def obj_simps)
  obtain r where r: "mergeConfig ex_base ex_overrides = Inr r"
    using ex_merge by blast
  from server_replaced_wholesale [OF r d]
  have "getprop r ''server'' = getprop ex_overrides ''server''" by blast
  then have "getprop r ''server'' = JObj [(''port'', JNum 9000)]"
    by (simp add: ex_overrides_def obj_simps)
  moreover have "getprop (getprop ex_base ''server'') ''host'' = JStr ''0.0.0.0''"
    by (simp add: ex_base_def obj_simps)
  ultimately show ?thesis
    using d by (simp add: r obj_simps)
qed

text \<open>
  C5 as stated fails: with only \<open>headless\<close> in \<open>overrides.browser.launchOptions\<close>, the key
  \<open>assistantMode\<close> of \<open>base.browser.launchOptions\<close> is not preserved, its value \<open>false\<close>
  becomes \<open>true\<close>.
\<close>

theorem nested_merge_isolation_counterexample:
  "fst ` set (own_props (launchOptions_of ex_overrides)) = {''headless''} \<and>
   ''assistantMode'' \<noteq> ''headless'' \<and>
   getprop (launchOptions_of ex_base) ''assistantMode'' = JBool False \<and>
   (case mergeConfig ex_base ex_overrides of
      Inl e \<Rightarrow> False
    | Inr r \<Rightarrow> getprop (launchOptions_of r) ''assistantMode'' = JBool True)"
proof -
  obtain r where r: "mergeConfig ex_base ex_overrides = Inr r"
    using ex_merge by blast
  have "getprop (launchOptions_of r) ''assistantMode'' = JBool True"
    using r by (rule mergeConfig_assistantMode)
  moreover have "fst ` set (own_props (launchOptions_of ex_overrides)) = {''headless''}"
    by (simp add: ex_overrides_def obj_simps)
  moreover have "getprop (launchOptions_of ex_base) ''assistantMode'' = JBool False"
    by (simp add: ex_base_def obj_simps)
  ultimately show ?thesis
    by (simp add: r)
qed

text \<open>
  C5, amended. When \<open>overrides.browser.launchOptions\<close> has the key \<open>headless\<close> only,
  every other key of \<open>base.browser.launchOptions\<close> but \<open>assistantMode\<close> is in the merge
  with the value it has in \<open>base\<close> (and a key that \<open>base\<close> has not is not added); the keys
  of \<open>contextOptions\<close> are merged key by key, \<open>overrides\<close> winning where it has the key.
\<close>

theorem nested_merge_isolation:
  assumes "mergeConfig base overrides = Inr r"
      and "fst ` set (own_props (launchOptions_of overrides)) = {''headless''}"
      and "k \<noteq> ''headless''" and "k \<noteq> ''assistantMode''"
  shows "getprop (launchOptions_of r) k = getprop (launchOptions_of base) k \<and>
         (has_key (launchOptions_of r) k \<longleftrightarrow> has_key (launchOptions_of base) k) \<and>
         getprop (contextOptions_of r) k' =
           (if has_key (contextOptions_of overrides) k' then getprop (contextOptions_of overrides) k'
            else getprop (contextOptions_of base) k') \<and>
         (has_key (contextOptions_of r) k' \<longleftrightarrow>
            has_key (contextOptions_of base) k' \<or> has_key (contextOptions_of overrides) k')"
proof -
  from assms(2,3) have nk: "\<not> has_key (launchOptions_of overrides) k"
    by (simp add: has_key_def)
  from assms(1,4) nk have "getprop (launchOptions_of r) k = getprop (launchOptions_of base) k"
    by (simp add: mergeConfig_launchOptions)
  moreover from assms(1,4) nk
  have "has_key (launchOptions_of r) k \<longleftrightarrow> has_key (launchOptions_of base) k"
    by (simp add: mergeConfig_launchOptions)
  moreover note mergeConfig_contextOptions [OF assms(1), of k']
  ultimately show ?thesis by blast
qed

theorem nested_merge_isolation_witness:
  "fst ` set (own_props (launchOptions_of ex_overrides)) = {''headless''} \<and>
   (case mergeConfig ex_base ex_overrides of
      Inl e \<Rightarrow> False
    | Inr r \<Rightarrow> getprop (launchOptions_of r) ''executablePath'' = JStr ''/opt/chrome'' \<and>
              has_key (launchOptions_of r) ''executablePath'' \<and>
              getprop (contextOptions_of r) ''viewport'' = JNull \<and>
              has_key (contextOptions_of r) ''viewport'')"
proof -
  obtain r where r: "mergeConfig ex_base ex_overrides = Inr r"
    using ex_merge by blast
  have h: "fst ` set (own_props (launchOptions_of ex_overrides)) = {''headless''}"
    by (simp add: ex_overrides_def obj_simps)
  have b: "getprop (launchOptions_of ex_base) ''executablePath'' = JStr ''/opt/chrome''"
          "has_key (launchOptions_of ex_base) ''executablePath''"
          "getprop (contextOptions_of ex_base) ''viewport'' = JNull"
          "has_key (contextOptions_of ex_base) ''viewport''"
          "\<not> has_key (contextOptions_of ex_overrides) ''viewport''"
    by (simp_all add: ex_base_def ex_overrides_def obj_simps)
  from nested_merge_isolation [OF r h, of "''executablePath''" "''viewport''"] b
  have "getprop (launchOptions_of r) ''executablePath'' = JStr ''/opt/chrome'' \<and>
        has_key (launchOptions_of r) ''executablePath'' \<and>
        getprop (contextOptions_of r) ''viewport'' = JNull \<and>
        has_key (contextOptions_of r) ''viewport''"
    by simp
  with h show ?thesis
    by (simp add: r)
qed

section \<open>What the command line always sets\<close>

lemma configFromCLIOptions_Inr:
  assumes "configFromCLIOptions w cli = Inr (C, w')"
  obtains rest dir where
    "C = cli_fragment w cli (cli_launchOptions cli @ rest) dir"
    "fst (browser_switch (browser cli)) \<noteq> ''chromium'' \<longrightarrow> rest = []"
    "fst (browser_switch (browser cli)) = ''chromium'' \<longrightarrow>
       (\<exists>p. findFreePort w = Inr p \<and> rest = [(''webSocketPort'', JNum p)])"
proof (cases "fst (browser_switch (browser cli)) = ''chromium''")
  case True
  with assms obtain p dir where
    "findFreePort w = Inr p"
    "C = cli_fragment w cli (cli_launchOptions cli @ [(''webSocketPort'', JNum p)]) dir"
    by (auto simp: configFromCLIOptions_eq split: sum.splits)
  with True that show thesis by blast
next
  case False
  with assms obtain dir where "C = cli_fragment w cli (cli_launchOptions cli @ []) dir"
    by (auto simp: configFromCLIOptions_eq split: sum.splits)
  with False that show thesis by blast
qed

lemma cli_fragment_top:
  "has_key (cli_fragment w cli lo dir) ''vision''"
  "has_key (cli_fragment w cli lo dir) ''server''"
  "has_key (cli_fragment w cli lo dir) ''capabilities''"
  "getprop (cli_fragment w cli lo dir) ''vision'' = JBool (vision cli = Some True)"
  "getprop (cli_fragment w cli lo dir) ''server'' =
     JObj [(''port'', opt_num (port cli)), (''host'', opt_str (host cli))]"
  "getprop (cli_fragment w cli lo dir) ''capabilities'' =
     (case caps cli of
        None \<Rightarrow> JUndefined
      | Some s \<Rightarrow> JArr (map (\<lambda>c. JStr (trim c)) (split_at CHR '','' s)))"
  by (auto simp: cli_fragment_def obj_simps split: option.splits)

lemma cli_fragment_browser:
  "getprop (browser_of (cli_fragment w cli lo dir)) ''browserName'' =
     JStr (fst (browser_switch (browser cli)))"
  "getprop (browser_of (cli_fragment w cli lo dir)) ''userDataDir'' = JStr dir"
  "has_key (browser_of (cli_fragment w cli lo dir)) ''browserName''"
  "has_key (browser_of (cli_fragment w cli lo dir)) ''userDataDir''"
  "\<not> has_key (browser_of (cli_fragment w cli lo dir)) ''channel''"
  "launchOptions_of (cli_fragment w cli lo dir) = JObj lo"
  by (simp_all add: cli_fragment_def obj_simps)

lemma cli_launchOptions_keys:
  "has_key (JObj (cli_launchOptions cli @ rest)) ''channel''"
  "has_key (JObj (cli_launchOptions cli @ rest)) ''executablePath''"
  "has_key (JObj (cli_launchOptions cli @ rest)) ''headless''"
  "getprop (JObj (cli_launchOptions cli @ rest)) ''channel'' =
     opt_str (snd (browser_switch (browser cli)))"
  "getprop (JObj (cli_launchOptions cli @ rest)) ''executablePath'' = opt_str (executablePath cli)"
  "getprop (JObj (cli_launchOptions cli @ rest)) ''headless'' = opt_bool (headless cli)"
  "has_key (JObj (cli_launchOptions cli @ rest)) ''webSocketPort'' \<longleftrightarrow>
     has_key (JObj rest) ''webSocketPort''"
  by (simp_all add: cli_launchOptions_def obj_simps)

text \<open>
  C3. The fragment of the command line always has the keys \<open>vision\<close>, \<open>server\<close>,
  \<open>capabilities\<close> and, in \<open>launchOptions\<close>, \<open>executablePath\<close>, \<open>headless\<close> and \<open>channel\<close>.
  So in every configuration that \<open>resolveConfig\<close> returns, \<open>vision\<close> is
  \<open>!!cliOptions.vision\<close>, \<open>server\<close> is the pair of \<open>cliOptions.port\<close> and \<open>cliOptions.host\<close>,
  and \<open>launchOptions.executablePath\<close> is \<open>cliOptions.executablePath\<close>, which is \<open>undefined\<close>
  when the option is not given: what the file says of these is without effect.
\<close>

theorem cli_fragment_overrides_file:
  assumes "resolveConfig w cli = Inr (r, w')"
  shows "(\<exists>C. configFromCLIOptions w cli = Inr (C, w') \<and>
              has_key C ''vision'' \<and> has_key C ''server'' \<and> has_key C ''capabilities'' \<and>
              has_key (launchOptions_of C) ''executablePath'' \<and>
              has_key (launchOptions_of C) ''headless'' \<and>
              has_key (launchOptions_of C) ''channel'') \<and>
         getprop r ''vision'' = JBool (vision cli = Some True) \<and>
         getprop r ''server'' = JObj [(''port'', opt_num (port cli)), (''host'', opt_str (host cli))] \<and>
         getprop (launchOptions_of r) ''executablePath'' = opt_str (executablePath cli) \<and>
         (executablePath cli = None \<longrightarrow> getprop (launchOptions_of r) ''executablePath'' = JUndefined)"
proof -
  from assms obtain F C m where
    C: "configFromCLIOptions w cli = Inr (C, w')" and
    m: "mergeConfig F C = Inr m" and
    r: "mergeConfig (defaultConfig w) m = Inr r"
    by (blast elim: resolveConfig_Inr)
  from C obtain rest dir where
    Ceq: "C = cli_fragment w cli (cli_launchOptions cli @ rest) dir"
    by (blast elim: configFromCLIOptions_Inr)
  have keys: "has_key C ''vision''" "has_key C ''server''" "has_key C ''capabilities''"
    "has_key (launchOptions_of C) ''executablePath''"
    "has_key (launchOptions_of C) ''headless''"
    "has_key (launchOptions_of C) ''channel''"
    by (simp_all add: Ceq cli_fragment_top cli_fragment_browser cli_launchOptions_keys)
  have mv: "getprop m ''vision'' = getprop C ''vision''" "has_key m ''vision''"
           "getprop m ''server'' = getprop C ''server''" "has_key m ''server''"
    using keys by (simp_all add: mergeConfig_top [OF m])
  have me: "getprop (launchOptions_of m) ''executablePath'' = getprop (launchOptions_of C) ''executablePath''"
           "has_key (launchOptions_of m) ''executablePath''"
    using keys by (simp_all add: mergeConfig_launchOptions [OF m])
  have 1: "getprop r ''vision'' = JBool (vision cli = Some True)"
    using mv by (simp add: mergeConfig_top [OF r] Ceq cli_fragment_top)
  have 2: "getprop r ''server'' = JObj [(''port'', opt_num (port cli)), (''host'', opt_str (host cli))]"
    using mv by (simp add: mergeConfig_top [OF r] Ceq cli_fragment_top)
  have 3: "getprop (launchOptions_of r) ''executablePath'' = opt_str (executablePath cli)"
    using me by (simp add: mergeConfig_launchOptions [OF r] Ceq cli_fragment_browser
        cli_launchOptions_keys)
  from 3 have 4: "executablePath cli = None \<longrightarrow> getprop (launchOptions_of r) ''executablePath'' = JUndefined"
    by (simp add: opt_str_def)
  from C keys 1 2 3 4 show ?thesis by blast
qed

theorem cli_fragment_overrides_file_witness:
  "getprop ex_file ''vision'' = JBool True \<and>
   getprop (getprop ex_file ''server'') ''port'' = JNum 8080 \<and>
   getprop (launchOptions_of ex_file) ''executablePath'' = JStr ''/opt/chrome'' \<and>
   loadConfig ex_world (config ex_cli) = Inr ex_file \<and>
   (case resolveConfig ex_world ex_cli of
      Inl e \<Rightarrow> False
    | Inr (r, w') \<Rightarrow>
        getprop r ''vision'' = JBool False \<and>
        getprop r ''server'' = JObj [(''port'', JUndefined), (''host'', JUndefined)] \<and>
        getprop (launchOptions_of r) ''executablePath'' = JUndefined)"
proof -
  obtain r where r: "resolveConfig ex_world ex_cli = Inr (r, ex_world)"
    using ex_resolve by blast
  have f: "getprop ex_file ''vision'' = JBool True"
    "getprop (getprop ex_file ''server'') ''port'' = JNum 8080"
    "getprop (launchOptions_of ex_file) ''executablePath'' = JStr ''/opt/chrome''"
    by (simp_all add: ex_file_def obj_simps)
  have c: "vision ex_cli = None" "port ex_cli = None" "host ex_cli = None"
    "executablePath ex_cli = None"
    by (simp_all add: ex_cli_def no_options_def)
  from cli_fragment_overrides_file [OF r] c
  have "getprop r ''vision'' = JBool False \<and>
        getprop r ''server'' = JObj [(''port'', JUndefined), (''host'', JUndefined)] \<and>
        getprop (launchOptions_of r) ''executablePath'' = JUndefined"
    by (simp add: opt_num_def opt_str_def)
  with f show ?thesis
    by (simp add: r ex_load)
qed

section \<open>Precedence of the three sources\<close>

lemma merge3_field:
  assumes "mergeConfig F C = Inr m" and "mergeConfig D m = Inr r" and "scalar_field f"
  shows "read_field r f = precedence_by_key D F C f"
  using mergeConfig_field [OF assms(1,3)] mergeConfig_field [OF assms(2,3)]
  by (simp add: precedence_by_key_def)

lemma ex_fragment_fields:
  "has_field (cli_fragment ex_world ex_cli lo dir) (Top ''server'')"
  "\<not> has_field (cli_fragment ex_world ex_cli lo dir) (Top ''outputDir'')"
  "has_field (cli_fragment ex_world ex_cli (cli_launchOptions ex_cli @ rest) dir)
     (InLaunchOptions ''headless'')"
  "read_field (cli_fragment ex_world ex_cli (cli_launchOptions ex_cli @ rest) dir)
     (InLaunchOptions ''headless'') = JUndefined"
  "has_field (cli_fragment ex_world ex_cli (cli_launchOptions ex_cli @ rest) dir)
     (InLaunchOptions ''executablePath'')"
  "read_field (cli_fragment ex_world ex_cli (cli_launchOptions ex_cli @ rest) dir)
     (InLaunchOptions ''executablePath'') = JUndefined"
  by (simp_all add: has_field_def read_field_def cli_fragment_def cli_launchOptions_def
        ex_cli_def no_options_def opt_bool_def opt_str_def obj_simps)

lemma ex_file_fields:
  "has_field ex_file (Top ''outputDir'')"
  "read_field ex_file (Top ''outputDir'') = JStr ''/out''"
  "read_field ex_file (InLaunchOptions ''executablePath'') = JStr ''/opt/chrome''"
  by (simp_all add: has_field_def read_field_def ex_file_def obj_simps)

text \<open>
  Where no fragment has a key with the value \<open>undefined\<close>, the merge is the precedence
  chain by value: the value of \<open>C\<close> if \<open>C\<close> defines the field, else that of \<open>F\<close>, else that
  of \<open>D\<close>.
\<close>

lemma defines_has_field: "defines_field c f \<Longrightarrow> has_field c f"
  unfolding defines_field_def has_field_def read_field_def
  using getprop_absent by blast

lemma precedence_without_undefined_keys:
  assumes "mergeConfig F C = Inr m" and "mergeConfig D m = Inr r" and "scalar_field f"
      and "has_field C f \<longrightarrow> defines_field C f"
      and "has_field F f \<longrightarrow> defines_field F f"
  shows "read_field r f = precedence_by_value D F C f"
  using merge3_field [OF assms(1-3)] assms(4,5) defines_has_field [of C f] defines_has_field [of F f]
  by (auto simp: precedence_by_key_def precedence_by_value_def)

text \<open>
  The fragment of the command line has the key \<open>launchOptions.headless\<close> also when the
  option is not given, so the resolved \<open>headless\<close> is always that of the command line:
  the value that \<open>defaultConfig\<close> computes from the platform and the display reaches no
  result.
\<close>

lemma resolved_headless:
  assumes "resolveConfig w cli = Inr (r, w')"
  shows "getprop (launchOptions_of r) ''headless'' = opt_bool (headless cli)"
proof -
  from assms obtain F C m where
    C: "configFromCLIOptions w cli = Inr (C, w')" and
    m: "mergeConfig F C = Inr m" and
    r: "mergeConfig (defaultConfig w) m = Inr r"
    by (blast elim: resolveConfig_Inr)
  from C obtain rest dir where
    Ceq: "C = cli_fragment w cli (cli_launchOptions cli @ rest) dir"
    by (blast elim: configFromCLIOptions_Inr)
  have k: "has_key (launchOptions_of C) ''headless''"
    "getprop (launchOptions_of C) ''headless'' = opt_bool (headless cli)"
    by (simp_all add: Ceq cli_fragment_browser cli_launchOptions_keys)
  have "getprop (launchOptions_of m) ''headless'' = opt_bool (headless cli)"
    "has_key (launchOptions_of m) ''headless''"
    using k by (simp_all add: mergeConfig_launchOptions [OF m])
  then show ?thesis
    by (simp add: mergeConfig_launchOptions [OF r])
qed

text \<open>
  C1. \<open>resolveConfig\<close> is \<open>mergeConfig D (mergeConfig F C)\<close> and should yield, for a scalar
  field, the value of \<open>C\<close> if \<open>C\<close> defines it, else that of \<open>F\<close>, else that of \<open>D\<close>. The code
  does not: with \<^verbatim>\<open>cfg.json\<close> setting \<open>launchOptions.executablePath\<close> to \<open>/opt/chrome\<close>
  and neither \<^verbatim>\<open>--executable-path\<close> nor \<^verbatim>\<open>--headless\<close> given, the fragment of the
  command line defines neither field, the chain gives \<open>/opt/chrome\<close> (from the file) and
  \<open>true\<close> (the default \<open>headless\<close> on Linux with no display), and \<open>resolveConfig\<close>
  returns \<open>undefined\<close> for both.
\<close>

theorem precedence_lost_for_absent_option:
  "executablePath ex_cli = None \<and> headless ex_cli = None \<and>
   loadConfig ex_world (config ex_cli) = Inr ex_file \<and>
   read_field ex_file (InLaunchOptions ''executablePath'') = JStr ''/opt/chrome'' \<and>
   read_field ex_file (InLaunchOptions ''headless'') = JUndefined \<and>
   read_field (defaultConfig ex_world) (InLaunchOptions ''headless'') = JBool True \<and>
   (case configFromCLIOptions ex_world ex_cli of
      Inl e \<Rightarrow> False
    | Inr (C, w') \<Rightarrow>
        (case resolveConfig ex_world ex_cli of
           Inl e \<Rightarrow> False
         | Inr (r, w'') \<Rightarrow>
             read_field C (InLaunchOptions ''executablePath'') = JUndefined \<and>
             read_field C (InLaunchOptions ''headless'') = JUndefined \<and>
             precedence_by_value (defaultConfig ex_world) ex_file C
               (InLaunchOptions ''executablePath'') = JStr ''/opt/chrome'' \<and>
             precedence_by_value (defaultConfig ex_world) ex_file C
               (InLaunchOptions ''headless'') = JBool True \<and>
             read_field r (InLaunchOptions ''executablePath'') = JUndefined \<and>
             read_field r (InLaunchOptions ''headless'') = JUndefined))"
proof -
  let ?e = "InLaunchOptions ''executablePath''"
  let ?h = "InLaunchOptions ''headless''"
  let ?C = "cli_fragment ex_world ex_cli
              (cli_launchOptions ex_cli @ [(''webSocketPort'', JNum 40000)]) ''/tmp/profile''"
  have o: "executablePath ex_cli = None" "headless ex_cli = None"
    by (simp_all add: ex_cli_def no_options_def)
  have F: "read_field ex_file ?h = JUndefined"
    by (simp add: read_field_def ex_file_def obj_simps)
  have D: "read_field (defaultConfig ex_world) ?h = JBool True"
    by (simp add: read_field_def defaultConfig_def ex_world_def truthy_str_def obj_simps)
  have v: "precedence_by_value (defaultConfig ex_world) ex_file ?C ?e = JStr ''/opt/chrome''"
    "precedence_by_value (defaultConfig ex_world) ex_file ?C ?h = JBool True"
    by (simp_all add: precedence_by_value_def defines_field_def ex_fragment_fields ex_file_fields F D)
  obtain r where r: "resolveConfig ex_world ex_cli = Inr (r, ex_world)"
    using ex_resolve by blast
  then obtain m where m: "mergeConfig ex_file ?C = Inr m" "mergeConfig (defaultConfig ex_world) m = Inr r"
    by (auto elim!: resolveConfig_Inr simp: ex_load ex_cli_fragment)
  have "read_field r ?e = precedence_by_key (defaultConfig ex_world) ex_file ?C ?e"
    using m by (rule merge3_field) simp
  then have e: "read_field r ?e = JUndefined"
    by (simp add: precedence_by_key_def ex_fragment_fields)
  have h: "read_field r ?h = JUndefined"
    using resolved_headless [OF r] by (simp add: read_field_def o opt_bool_def)
  show ?thesis
    by (simp add: o ex_load ex_cli_fragment r ex_file_fields ex_fragment_fields F D v e h)
qed

section \<open>Browser tokens\<close>

lemma browser_switch_cases:
  "browser_switch b =
     (case b of
        None \<Rightarrow> (''chromium'', Some ''chrome'')
      | Some t \<Rightarrow>
          if t \<in> chromium_tokens then (''chromium'', Some t)
          else if t = ''firefox'' then (''firefox'', None)
          else if t = ''webkit'' then (''webkit'', None)
          else (''chromium'', Some ''chrome''))"
  by (cases b) (simp_all add: browser_switch_def chromium_tokens_def)

lemma browser_switch_name:
  "fst (browser_switch b) \<in> {''chromium'', ''firefox'', ''webkit''}"
  by (simp add: browser_switch_cases split: option.splits)

lemma not_chromium_tokens: "''firefox'' \<notin> chromium_tokens" "''webkit'' \<notin> chromium_tokens"
  by (simp_all add: chromium_tokens_def)

text \<open>
  C9. Whenever \<open>configFromCLIOptions\<close> returns, \<open>browserName\<close> is one of \<open>chromium\<close>,
  \<open>firefox\<close> and \<open>webkit\<close>; a chrome or msedge channel token (and \<open>chromium\<close>) gives
  \<open>chromium\<close> with the token as \<open>launchOptions.channel\<close>, \<open>firefox\<close> and \<open>webkit\<close> give
  themselves with no channel, and every other or absent token gives \<open>chromium\<close> with the
  channel \<open>chrome\<close>. The token never makes the function fail: with a free port and a given
  user data directory it returns for every token.
\<close>

theorem browser_token_mapping:
  "(configFromCLIOptions w cli = Inr (C, w') \<longrightarrow>
      getprop (browser_of C) ''browserName'' \<in> {JStr ''chromium'', JStr ''firefox'', JStr ''webkit''} \<and>
      \<not> has_key (browser_of C) ''channel'' \<and>
      (\<forall>t. browser cli = Some t \<and> t \<in> chromium_tokens \<longrightarrow>
           getprop (browser_of C) ''browserName'' = JStr ''chromium'' \<and>
           getprop (launchOptions_of C) ''channel'' = JStr t) \<and>
      (\<forall>t. browser cli = Some t \<and> (t = ''firefox'' \<or> t = ''webkit'') \<longrightarrow>
           getprop (browser_of C) ''browserName'' = JStr t \<and>
           getprop (launchOptions_of C) ''channel'' = JUndefined) \<and>
      ((\<forall>t. browser cli = Some t \<longrightarrow> t \<notin> chromium_tokens \<and> t \<noteq> ''firefox'' \<and> t \<noteq> ''webkit'') \<longrightarrow>
           getprop (browser_of C) ''browserName'' = JStr ''chromium'' \<and>
           getprop (launchOptions_of C) ''channel'' = JStr ''chrome'')) \<and>
   (listen_result w = Inr p \<and> userDataDir cli = Some d \<longrightarrow>
      (\<exists>C. configFromCLIOptions w cli = Inr (C, w)))"
proof (intro conjI impI)
  assume "listen_result w = Inr p \<and> userDataDir cli = Some d"
  then show "\<exists>C. configFromCLIOptions w cli = Inr (C, w)"
    by (simp add: configFromCLIOptions_eq findFreePort_def)
next
  assume a: "configFromCLIOptions w cli = Inr (C, w')"
  then obtain rest dir where
    C: "C = cli_fragment w cli (cli_launchOptions cli @ rest) dir"
    by (blast elim: configFromCLIOptions_Inr)
  have n: "getprop (browser_of C) ''browserName'' = JStr (fst (browser_switch (browser cli)))"
    and c: "getprop (launchOptions_of C) ''channel'' = opt_str (snd (browser_switch (browser cli)))"
    by (simp_all add: C cli_fragment_browser cli_launchOptions_keys)
  show "getprop (browser_of C) ''browserName'' \<in> {JStr ''chromium'', JStr ''firefox'', JStr ''webkit''}"
    using browser_switch_name [of "browser cli"] by (auto simp: n)
  show "\<not> has_key (browser_of C) ''channel''"
    by (simp add: C cli_fragment_browser)
  show "\<forall>t. browser cli = Some t \<and> t \<in> chromium_tokens \<longrightarrow>
           getprop (browser_of C) ''browserName'' = JStr ''chromium'' \<and>
           getprop (launchOptions_of C) ''channel'' = JStr t"
    by (simp add: n c browser_switch_cases opt_str_def)
  show "\<forall>t. browser cli = Some t \<and> (t = ''firefox'' \<or> t = ''webkit'') \<longrightarrow>
           getprop (browser_of C) ''browserName'' = JStr t \<and>
           getprop (launchOptions_of C) ''channel'' = JUndefined"
    by (auto simp: n c browser_switch_cases opt_str_def not_chromium_tokens)
  assume "\<forall>t. browser cli = Some t \<longrightarrow> t \<notin> chromium_tokens \<and> t \<noteq> ''firefox'' \<and> t \<noteq> ''webkit''"
  then show "getprop (browser_of C) ''browserName'' = JStr ''chromium''"
    "getprop (launchOptions_of C) ''channel'' = JStr ''chrome''"
    by (auto simp: n c browser_switch_cases opt_str_def split: option.splits)
qed

theorem browser_token_mapping_witness:
  "(case configFromCLIOptions ex_world (ex_cli\<lparr>browser := Some ''not-a-browser''\<rparr>) of
      Inl e \<Rightarrow> False
    | Inr (C, w') \<Rightarrow> getprop (browser_of C) ''browserName'' = JStr ''chromium'' \<and>
                     getprop (launchOptions_of C) ''channel'' = JStr ''chrome'') \<and>
   (case configFromCLIOptions ex_world (ex_cli\<lparr>browser := Some ''msedge''\<rparr>) of
      Inl e \<Rightarrow> False
    | Inr (C, w') \<Rightarrow> getprop (browser_of C) ''browserName'' = JStr ''chromium'' \<and>
                     getprop (launchOptions_of C) ''channel'' = JStr ''msedge'') \<and>
   (case configFromCLIOptions ex_world (ex_cli\<lparr>browser := Some ''webkit''\<rparr>) of
      Inl e \<Rightarrow> False
    | Inr (C, w') \<Rightarrow> getprop (browser_of C) ''browserName'' = JStr ''webkit'' \<and>
                     getprop (launchOptions_of C) ''channel'' = JUndefined)"
proof -
  have w: "listen_result ex_world = Inr 40000"
    by (simp add: ex_world_def)
  have u: "userDataDir (ex_cli\<lparr>browser := b\<rparr>) = Some ''/tmp/profile''" for b
    by (simp add: ex_cli_def)
  note t = browser_token_mapping [where w = ex_world and w' = ex_world and p = 40000
      and d = "''/tmp/profile''"]
  obtain C1 where C1: "configFromCLIOptions ex_world (ex_cli\<lparr>browser := Some ''not-a-browser''\<rparr>) = Inr (C1, ex_world)"
    using t [of "ex_cli\<lparr>browser := Some ''not-a-browser''\<rparr>"] w u by blast
  obtain C2 where C2: "configFromCLIOptions ex_world (ex_cli\<lparr>browser := Some ''msedge''\<rparr>) = Inr (C2, ex_world)"
    using t [of "ex_cli\<lparr>browser := Some ''msedge''\<rparr>"] w u by blast
  obtain C3 where C3: "configFromCLIOptions ex_world (ex_cli\<lparr>browser := Some ''webkit''\<rparr>) = Inr (C3, ex_world)"
    using t [of "ex_cli\<lparr>browser := Some ''webkit''\<rparr>"] w u by blast
  have 1: "getprop (browser_of C1) ''browserName'' = JStr ''chromium'' \<and>
           getprop (launchOptions_of C1) ''channel'' = JStr ''chrome''"
    using t [of "ex_cli\<lparr>browser := Some ''not-a-browser''\<rparr>" C1] C1
    by (simp add: chromium_tokens_def)
  have 2: "getprop (browser_of C2) ''browserName'' = JStr ''chromium'' \<and>
           getprop (launchOptions_of C2) ''channel'' = JStr ''msedge''"
    using t [of "ex_cli\<lparr>browser := Some ''msedge''\<rparr>" C2] C2
    by (simp add: chromium_tokens_def)
  have 3: "getprop (browser_of C3) ''browserName'' = JStr ''webkit'' \<and>
           getprop (launchOptions_of C3) ''channel'' = JUndefined"
    using t [of "ex_cli\<lparr>browser := Some ''webkit''\<rparr>" C3] C3
    by simp
  show ?thesis
    by (simp add: C1 C2 C3 1 2 3)
qed

section \<open>The scenario with Firefox\<close>

lemma trim_core_tabs: "trim ''core'' = ''core''" "trim ''tabs'' = ''tabs''"
  by (simp_all add: trim_def strip_start.simps white_space_def)

lemma firefox_switch: "browser_switch (browser firefox_options) = (''firefox'', None)"
  by (simp add: browser_switch_def firefox_options_def no_options_def)

lemma defaultConfig_browser:
  "\<not> nullish (defaultConfig w)"
  "\<not> has_key (browser_of (defaultConfig w)) ''channel''"
  "\<not> has_key (launchOptions_of (defaultConfig w)) ''webSocketPort''"
  by (simp_all add: defaultConfig_def nullish_def obj_simps)

lemma empty_fragment:
  "\<not> nullish (JObj [])"
  "\<not> has_key (JObj []) k"
  "\<not> has_key (getprop (JObj []) k) k'"
  "\<not> has_key (getprop (getprop (JObj []) k) k') k''"
  by (simp_all add: nullish_def obj_simps has_key_def getprop_def)

lemma cli_fragment_not_nullish: "\<not> nullish (cli_fragment w cli lo dir)"
  by (simp add: cli_fragment_def nullish_def)

text \<open>
  C8. With no configuration file and the command line \<^verbatim>\<open>{browser: 'firefox', headless:
  true, caps: 'core,tabs'}\<close>, whenever the profile directory of Firefox can be made,
  \<open>resolveConfig\<close> returns a configuration with \<open>browserName = 'firefox'\<close>, no channel (no
  key \<open>channel\<close> in \<open>browser\<close>, and \<open>launchOptions.channel\<close> is \<open>undefined\<close>), no
  \<open>webSocketPort\<close> in \<open>launchOptions\<close>, \<open>headless = true\<close>, \<open>assistantMode = true\<close> and the
  capabilities \<open>['core', 'tabs']\<close>.
\<close>

theorem firefox_scenario:
  assumes "createUserDataDir w ''firefox'' None = Inr (dir, w')"
  shows "\<exists>r. resolveConfig w firefox_options = Inr (r, w') \<and>
             getprop (browser_of r) ''browserName'' = JStr ''firefox'' \<and>
             \<not> has_key (browser_of r) ''channel'' \<and>
             getprop (launchOptions_of r) ''channel'' = JUndefined \<and>
             \<not> has_key (launchOptions_of r) ''webSocketPort'' \<and>
             getprop (launchOptions_of r) ''headless'' = JBool True \<and>
             getprop (launchOptions_of r) ''assistantMode'' = JBool True \<and>
             getprop r ''capabilities'' = JArr [JStr ''core'', JStr ''tabs''] \<and>
             getprop (browser_of r) ''userDataDir'' = JStr dir"
proof -
  let ?C = "cli_fragment w firefox_options (cli_launchOptions firefox_options) dir"
  note cli_launchOptions_keys = cli_launchOptions_keys [where rest = "[]", unfolded append_Nil2]
  have o: "config firefox_options = None" "userDataDir firefox_options = None"
    "headless firefox_options = Some True" "caps firefox_options = Some ''core,tabs''"
    by (simp_all add: firefox_options_def no_options_def)
  have l: "loadConfig w (config firefox_options) = Inr (JObj [])"
    by (simp add: o loadConfig_def truthy_str_def)
  have C: "configFromCLIOptions w firefox_options = Inr (?C, w')"
    using assms by (simp add: configFromCLIOptions_eq firefox_switch o)
  obtain m where m: "mergeConfig (JObj []) ?C = Inr m"
    using mergeConfig_Inr [of "JObj []" ?C] empty_fragment(1) cli_fragment_not_nullish by blast
  have "\<not> nullish m"
    by (simp add: mergeConfig_eq [OF m] nullish_def)
  then obtain r where r: "mergeConfig (defaultConfig w) m = Inr r"
    using mergeConfig_Inr [of "defaultConfig w" m] defaultConfig_browser(1) by blast
  have res: "resolveConfig w firefox_options = Inr (r, w')"
    by (simp add: resolveConfig_def l C m r)
  have 1: "getprop (browser_of r) ''browserName'' = JStr ''firefox''"
    by (simp add: mergeConfig_browser [OF r] mergeConfig_browser [OF m] cli_fragment_browser
          firefox_switch)
  have 2: "\<not> has_key (browser_of r) ''channel''"
    by (simp add: mergeConfig_browser [OF r] mergeConfig_browser [OF m] cli_fragment_browser
          defaultConfig_browser empty_fragment)
  have 3: "getprop (launchOptions_of r) ''channel'' = JUndefined"
    by (simp add: mergeConfig_launchOptions [OF r] mergeConfig_launchOptions [OF m]
          cli_fragment_browser cli_launchOptions_keys firefox_switch opt_str_def)
  have 4: "\<not> has_key (launchOptions_of r) ''webSocketPort''"
    by (simp add: mergeConfig_launchOptions [OF r] mergeConfig_launchOptions [OF m]
          cli_fragment_browser cli_launchOptions_keys defaultConfig_browser empty_fragment)
  have 5: "getprop (launchOptions_of r) ''headless'' = JBool True"
    by (simp add: mergeConfig_launchOptions [OF r] mergeConfig_launchOptions [OF m]
          cli_fragment_browser cli_launchOptions_keys o opt_bool_def)
  have 6: "getprop (launchOptions_of r) ''assistantMode'' = JBool True"
    using r by (rule mergeConfig_assistantMode)
  have 7: "getprop r ''capabilities'' = JArr [JStr ''core'', JStr ''tabs'']"
    by (simp add: mergeConfig_top [OF r] mergeConfig_top [OF m] cli_fragment_top o trim_core_tabs)
  have 8: "getprop (browser_of r) ''userDataDir'' = JStr dir"
    by (simp add: mergeConfig_browser [OF r] mergeConfig_browser [OF m] cli_fragment_browser)
  from res 1 2 3 4 5 6 7 8 show ?thesis by blast
qed

lemma ex_firefox_dir:
  "createUserDataDir ex_world ''firefox'' None =
     Inr (''/home/u/.cache/ms-playwright/mcp-firefox-profile'',
          ex_world\<lparr>dirs := [''/home/u/.cache/ms-playwright/mcp-firefox-profile'']\<rparr>)"
  by (simp add: createUserDataDir_def cacheDirectory_def ex_world_def ex_join_def truthy_str_def
        mkdir_recursive_def Let_def)

theorem firefox_scenario_witness:
  "createUserDataDir ex_world ''firefox'' None =
     Inr (''/home/u/.cache/ms-playwright/mcp-firefox-profile'',
          ex_world\<lparr>dirs := [''/home/u/.cache/ms-playwright/mcp-firefox-profile'']\<rparr>) \<and>
   (case resolveConfig ex_world firefox_options of
      Inl e \<Rightarrow> False
    | Inr (r, w') \<Rightarrow>
        getprop (browser_of r) ''browserName'' = JStr ''firefox'' \<and>
        getprop (launchOptions_of r) ''headless'' = JBool True \<and>
        getprop r ''capabilities'' = JArr [JStr ''core'', JStr ''tabs''] \<and>
        getprop (browser_of r) ''userDataDir'' =
          JStr ''/home/u/.cache/ms-playwright/mcp-firefox-profile'' \<and>
        dirs w' = [''/home/u/.cache/ms-playwright/mcp-firefox-profile''])"
  using firefox_scenario [OF ex_firefox_dir] ex_firefox_dir
  by auto

section \<open>Loading the configuration file\<close>

text \<open>
  C10. \<open>loadConfig\<close> returns the empty fragment when no path (or the empty path) is given.
  With a path, a failure of the read and a failure of the parse both raise an error whose
  message holds the path and the cause; \<open>resolveConfig\<close> then fails with that error, with
  no configuration returned.
\<close>

theorem loadConfig_errors:
  "loadConfig w None = Inr (JObj []) \<and>
   loadConfig w (Some []) = Inr (JObj []) \<and>
   (file \<noteq> [] \<and> read_file w file = Inl cause \<longrightarrow>
      loadConfig w (Some file) =
        Inl (Error (''Failed to load config file: '' @ file @ '', '' @ cause))) \<and>
   (file \<noteq> [] \<and> read_file w file = Inr content \<and> json_parse w content = Inl cause \<longrightarrow>
      loadConfig w (Some file) =
        Inl (Error (''Failed to load config file: '' @ file @ '', '' @ cause))) \<and>
   (file \<noteq> [] \<and> read_file w file = Inr content \<and> json_parse w content = Inr v \<longrightarrow>
      loadConfig w (Some file) = Inr v) \<and>
   (loadConfig w (config cli) = Inl e \<longrightarrow> resolveConfig w cli = Inl e)"
  by (simp add: loadConfig_def truthy_str_def resolveConfig_def Let_def)

theorem loadConfig_errors_witness:
  "read_file ex_world ''missing.json'' = Inl ''Error: ENOENT: no such file or directory'' \<and>
   loadConfig ex_world (Some ''missing.json'') =
     Inl (Error ''Failed to load config file: missing.json, Error: ENOENT: no such file or directory'') \<and>
   resolveConfig ex_world (ex_cli\<lparr>config := Some ''missing.json''\<rparr>) =
     Inl (Error ''Failed to load config file: missing.json, Error: ENOENT: no such file or directory'') \<and>
   loadConfig ex_world (Some ''cfg.json'') = Inr ex_file"
proof -
  have 1: "read_file ex_world ''missing.json'' = Inl ''Error: ENOENT: no such file or directory''"
    by (simp add: ex_world_def)
  have 2: "read_file ex_world ''cfg.json'' = Inr ''(the text of cfg.json)''"
    "json_parse ex_world ''(the text of cfg.json)'' = Inr ex_file"
    by (simp_all add: ex_world_def)
  note t = loadConfig_errors [where w = ex_world]
  have 3: "loadConfig ex_world (Some ''missing.json'') =
     Inl (Error ''Failed to load config file: missing.json, Error: ENOENT: no such file or directory'')"
    using t [of "''missing.json''" "''Error: ENOENT: no such file or directory''"] 1 by simp
  have 4: "resolveConfig ex_world (ex_cli\<lparr>config := Some ''missing.json''\<rparr>) =
     Inl (Error ''Failed to load config file: missing.json, Error: ENOENT: no such file or directory'')"
    using t [where cli = "ex_cli\<lparr>config := Some ''missing.json''\<rparr>"
        and e = "Error ''Failed to load config file: missing.json, Error: ENOENT: no such file or directory''"] 3
    by simp
  have 5: "loadConfig ex_world (Some ''cfg.json'') = Inr ex_file"
    using t [of "''cfg.json''" _ "''(the text of cfg.json)''" ex_file] 2 by simp
  show ?thesis
    by (simp add: 1 3 4 5)
qed

section \<open>Capability gating of the tools\<close>

lemma filter_tools_total:
  assumes "\<And>x. x \<in> set xs \<Longrightarrow> p x = Inr (q x)"
  shows "filter_tools p xs = Inr (filter q xs)"
  using assms by (induction xs) simp_all

lemma keep_tool_typed:
  assumes "getprop cfg ''capabilities'' = JUndefined \<or> (\<exists>xs. getprop cfg ''capabilities'' = JArr xs)"
  shows "keep_tool cfg t =
           Inr (getprop cfg ''capabilities'' = JUndefined \<or> capability t = ''core'' \<or>
                JStr (capability t) \<in> set (elements (getprop cfg ''capabilities'')))"
  using assms by (auto simp: keep_tool_def)

lemma getprop_default: "getprop (if cfg = JUndefined then JObj [] else cfg) k = getprop cfg k"
  by (simp add: getprop_def)

text \<open>
  C4. For a configuration whose \<open>capabilities\<close> is \<open>undefined\<close> or an array and whose
  \<open>vision\<close> is \<open>undefined\<close> or a boolean, the tools of \<open>createServer\<close> are the tools of one
  registry, \<open>screenshotTools\<close> if \<open>vision\<close> is \<open>true\<close> and \<open>snapshotTools\<close> if not, in the
  order of the registry, a tool being kept if and only if \<open>capabilities\<close> is \<open>undefined\<close>
  or the tool's capability is \<open>core\<close> or is an element of \<open>capabilities\<close>. So every tool
  that is exposed is a tool of the selected registry.
\<close>

theorem createServer_tools:
  assumes "cfg \<noteq> JNull"
      and "getprop cfg ''capabilities'' = JUndefined \<or> (\<exists>xs. getprop cfg ''capabilities'' = JArr xs)"
      and "getprop cfg ''vision'' = JUndefined \<or> (\<exists>b. getprop cfg ''vision'' = JBool b)"
  shows "\<exists>tools. createServer cfg snapshotTools screenshotTools = Inr tools \<and>
           tools = filter (\<lambda>t. getprop cfg ''capabilities'' = JUndefined \<or>
                               capability t = ''core'' \<or>
                               JStr (capability t) \<in> set (elements (getprop cfg ''capabilities'')))
                     (if getprop cfg ''vision'' = JBool True then screenshotTools else snapshotTools) \<and>
           subseq tools (if getprop cfg ''vision'' = JBool True then screenshotTools else snapshotTools) \<and>
           set tools \<subseteq> set (if getprop cfg ''vision'' = JBool True then screenshotTools else snapshotTools)"
proof -
  let ?cfg = "if cfg = JUndefined then JObj [] else cfg"
  let ?all = "if getprop cfg ''vision'' = JBool True then screenshotTools else snapshotTools"
  let ?q = "\<lambda>t. getprop cfg ''capabilities'' = JUndefined \<or> capability t = ''core'' \<or>
                 JStr (capability t) \<in> set (elements (getprop cfg ''capabilities''))"
  have n: "?cfg \<noteq> JNull"
    using assms(1) by simp
  have v: "truthy (getprop ?cfg ''vision'') \<longleftrightarrow> getprop cfg ''vision'' = JBool True"
    using assms(3) by (auto simp: getprop_default)
  have k: "keep_tool ?cfg t = Inr (?q t)" for t :: "'a tool_scheme"
    using keep_tool_typed [of ?cfg t] assms(2) by (simp only: getprop_default)
  have "createServer cfg snapshotTools screenshotTools = filter_tools (keep_tool ?cfg) ?all"
    using n v by (simp add: createServer_def Let_def)
  also have "\<dots> = Inr (filter ?q ?all)"
    by (rule filter_tools_total) (rule k)
  finally show ?thesis
    by simp
qed

theorem createServer_tools_witness:
  "ex_config \<noteq> JNull \<and>
   getprop ex_config ''capabilities'' = JArr [JStr ''console''] \<and>
   getprop ex_config ''vision'' = JBool True \<and>
   createServer ex_config ex_snapshotTools ex_screenshotTools =
     Inr [\<lparr>capability = ''core'', tool_name = ''browser_screen_capture''\<rparr>,
          \<lparr>capability = ''console'', tool_name = ''browser_console_messages''\<rparr>,
          \<lparr>capability = ''core'', tool_name = ''browser_screen_click''\<rparr>]"
proof -
  have 1: "ex_config \<noteq> JNull"
    by (simp add: ex_config_def)
  have 2: "getprop ex_config ''capabilities'' = JArr [JStr ''console'']"
    and 3: "getprop ex_config ''vision'' = JBool True"
    by (simp_all add: ex_config_def obj_simps)
  have h2: "getprop ex_config ''capabilities'' = JUndefined \<or>
            (\<exists>xs. getprop ex_config ''capabilities'' = JArr xs)"
    using 2 by blast
  have h3: "getprop ex_config ''vision'' = JUndefined \<or> (\<exists>b. getprop ex_config ''vision'' = JBool b)"
    using 3 by blast
  from createServer_tools [OF 1 h2 h3, of ex_snapshotTools ex_screenshotTools]
  have "createServer ex_config ex_snapshotTools ex_screenshotTools =
          Inr (filter (\<lambda>t. capability t = ''core'' \<or> capability t = ''console'') ex_screenshotTools)"
    by (simp add: 2 3)
  then show ?thesis
    using 1 2 3 by (simp add: ex_screenshotTools_def)
qed

section \<open>Profile directories\<close>

lemma mkdir_recursive_Inr:
  assumes "mkdir_recursive w p = Inr w'"
  shows "p \<in> set (dirs w')" and "\<exists>ds. w' = w\<lparr>dirs := ds\<rparr>"
proof -
  show "p \<in> set (dirs w')"
    using assms by (cases "p \<in> set (dirs w)") (auto simp: mkdir_recursive_def split: option.splits)
  show "\<exists>ds. w' = w\<lparr>dirs := ds\<rparr>"
  proof (cases "p \<in> set (dirs w)")
    case True
    with assms have "w' = w\<lparr>dirs := dirs w\<rparr>"
      by (simp add: mkdir_recursive_def)
    then show ?thesis ..
  next
    case False
    with assms have "w' = w\<lparr>dirs := p # dirs w\<rparr>"
      by (simp add: mkdir_recursive_def split: option.splits)
    then show ?thesis ..
  qed
qed

lemma cacheDirectory_dirs: "cacheDirectory (w\<lparr>dirs := ds\<rparr>) = cacheDirectory w"
  by (simp add: cacheDirectory_def)

lemma mkdir_recursive_again:
  assumes "mkdir_recursive w p = Inr w'"
  shows "mkdir_recursive w' p = Inr w'"
    and "cacheDirectory w' = cacheDirectory w"
    and "path_join w' = path_join w"
proof -
  show "mkdir_recursive w' p = Inr w'"
    using mkdir_recursive_Inr(1) [OF assms] by (simp add: mkdir_recursive_def)
  from mkdir_recursive_Inr(2) [OF assms] obtain ds where w': "w' = w\<lparr>dirs := ds\<rparr>" ..
  show "cacheDirectory w' = cacheDirectory w"
    by (simp add: w' cacheDirectory_dirs)
  show "path_join w' = path_join w"
    by (simp add: w')
qed

lemma createUserDataDir_Inr:
  "createUserDataDir w b c = Inr (p, w') \<longleftrightarrow>
     (\<exists>d. cacheDirectory w = Inr d \<and>
          p = path_join w [d, ''ms-playwright'', ''mcp-'' @ profile_key b c @ ''-profile''] \<and>
          mkdir_recursive w p = Inr w')"
  by (auto simp: createUserDataDir_def profile_key_def Let_def split: sum.splits)

lemma createUserDataDir_again:
  assumes "createUserDataDir w b c = Inr (p, w')"
  shows "createUserDataDir w' b c = Inr (p, w')"
  using assms mkdir_recursive_again [of w p w']
  by (auto simp: createUserDataDir_Inr)

lemma profile_key_switch:
  "profile_key (fst (browser_switch t)) (snd (browser_switch t)) \<in>
     chromium_tokens \<union> {''firefox'', ''webkit''}"
  by (simp add: browser_switch_cases profile_key_def chromium_tokens_def split: option.splits)

lemma browser_switch_of_key:
  "browser_switch t =
     (let k = profile_key (fst (browser_switch t)) (snd (browser_switch t))
      in if k = ''firefox'' then (''firefox'', None)
         else if k = ''webkit'' then (''webkit'', None)
         else (''chromium'', Some k))"
proof (cases t)
  case None
  then show ?thesis
    by (simp add: browser_switch_cases profile_key_def)
next
  case (Some x)
  show ?thesis
  proof (cases "x \<in> chromium_tokens")
    case True
    with not_chromium_tokens have "x \<noteq> ''firefox''" "x \<noteq> ''webkit''"
      by blast+
    with True Some show ?thesis
      by (simp add: browser_switch_cases profile_key_def)
  next
    case False
    with Some show ?thesis
      by (simp add: browser_switch_cases profile_key_def)
  qed
qed

lemma profile_key_switch_inj:
  assumes "profile_key (fst (browser_switch t1)) (snd (browser_switch t1)) =
           profile_key (fst (browser_switch t2)) (snd (browser_switch t2))"
  shows "browser_switch t1 = browser_switch t2"
  using assms browser_switch_of_key [of t1] browser_switch_of_key [of t2]
  by (simp add: Let_def)

subsection \<open>The last segment of a join\<close>

text \<open>
  \<^verbatim>\<open>path.join(d, a, b)\<close> ends with \<open>b\<close> when \<open>b\<close> is a plain segment, and what stands in
  front of \<open>b\<close> does not depend on \<open>b\<close>.
\<close>

lemma split_by_not_Nil: "split_by sep xs \<noteq> []"
  by (induction xs) (auto split: list.splits)

lemma split_by_append:
  "sep c \<Longrightarrow> split_by sep (xs @ c # ys) = split_by sep xs @ split_by sep ys"
proof (induction xs)
  case Nil
  then show ?case by simp
next
  case (Cons x xs)
  then show ?case
    using split_by_not_Nil [of sep xs]
    by (cases "split_by sep xs") auto
qed

lemma split_by_plain: "\<forall>c \<in> set b. \<not> sep c \<Longrightarrow> split_by sep b = [b]"
  by (induction b) auto

lemma join_with_snoc:
  "join_with s (res @ [b]) = (if res = [] then b else join_with s res @ s @ b)"
  by (induction s res rule: join_with.induct) auto

lemma normalize_step_plain:
  "plain_segment sep b \<Longrightarrow> normalize_step allow res b = res @ [b]"
  by (simp add: normalize_step_def plain_segment_def)

lemma normalizeString_plain_last:
  assumes "sep c" and "plain_segment sep b"
  shows "normalizeString (u @ c # b) allow separator sep =
           normalized_prefix u allow separator sep @ b"
proof -
  from assms have "split_by sep (u @ c # b) = split_by sep u @ [b]"
    by (simp add: split_by_append split_by_plain plain_segment_def)
  with assms(2) show ?thesis
    by (simp add: normalizeString_def normalized_prefix_def Let_def normalize_step_plain
          join_with_snoc)
qed

lemma plain_segment_last: "plain_segment sep b \<Longrightarrow> \<not> sep (last b)"
  by (simp add: plain_segment_def)

lemma posix_normalize_plain_last:
  assumes "u \<noteq> []" and "plain_segment isPosixPathSeparator b"
  shows "posix_normalize (u @ CHR ''/'' # b) =
           (if isPosixPathSeparator (hd u) then ''/'' else []) @
           normalized_prefix u (\<not> isPosixPathSeparator (hd u)) ''/'' isPosixPathSeparator @ b"
proof -
  have s: "isPosixPathSeparator CHR ''/''"
    by (simp add: isPosixPathSeparator_def)
  from assms(2) have b: "b \<noteq> []" "\<not> isPosixPathSeparator (last b)"
    by (simp_all add: plain_segment_def)
  with assms(1) show ?thesis
    by (simp add: posix_normalize_def Let_def normalizeString_plain_last [OF s assms(2)])
qed

lemma posix_join_plain_last:
  assumes "a \<noteq> []"
  shows "\<exists>k. \<forall>b. plain_segment isPosixPathSeparator b \<longrightarrow> posix_join [d, a, b] = k @ b"
proof -
  define u where "u = (if d = [] then a else d @ ''/'' @ a)"
  have u: "u \<noteq> []"
    using assms by (simp add: u_def)
  have "posix_join [d, a, b] =
          ((if isPosixPathSeparator (hd u) then ''/'' else []) @
           normalized_prefix u (\<not> isPosixPathSeparator (hd u)) ''/'' isPosixPathSeparator) @ b"
    if b: "plain_segment isPosixPathSeparator b" for b
  proof -
    from b have "b \<noteq> []"
      by (simp add: plain_segment_def)
    then have "join_with ''/'' (filter (\<lambda>arg. arg \<noteq> []) [d, a, b]) = u @ CHR ''/'' # b"
      using assms by (simp add: u_def)
    then have "posix_join [d, a, b] = posix_normalize (u @ CHR ''/'' # b)"
      by (simp add: posix_join_def Let_def)
    then show ?thesis
      using posix_normalize_plain_last [OF u b] by simp
  qed
  then show ?thesis by blast
qed

lemma takeWhile_before: "\<not> P y \<Longrightarrow> takeWhile P (xs @ y # ys) = takeWhile P xs"
  by (induction xs) auto

lemma dropWhile_before: "\<not> P y \<Longrightarrow> dropWhile P (xs @ y # ys) = dropWhile P xs @ y # ys"
  by (induction xs) auto

lemma dropWhile_keeps:
  "\<exists>x \<in> set xs. \<not> P x \<Longrightarrow> dropWhile P (xs @ ys) = dropWhile P xs @ ys"
  by (induction xs) auto

lemma last_dropWhile: "dropWhile P xs \<noteq> [] \<Longrightarrow> last (dropWhile P xs) = last xs"
  by (induction xs) (auto split: if_splits)

lemma dropWhile_has_last:
  assumes "dropWhile P xs \<noteq> []" and "\<not> Q (last xs)"
  shows "\<exists>x \<in> set (dropWhile P xs). \<not> Q x"
  using assms last_dropWhile [OF assms(1)] last_in_set [OF assms(1)] by metis

lemma bs_sep: "isPathSeparator (CHR 0x5C)"
  by (simp add: isPathSeparator_def)

lemma win32_finish_plain_last:
  assumes "plain_segment isPathSeparator b"
  shows "win32_finish dev isAbsolute (x @ CHR 0x5C # b) (u @ CHR 0x5C # b) =
           (case dev of
              None \<Rightarrow> (if isAbsolute then [CHR 0x5C] else [])
            | Some d \<Rightarrow> (if isAbsolute then d @ [CHR 0x5C] else d)) @
           normalized_prefix x (\<not> isAbsolute) [CHR 0x5C] isPathSeparator @ b"
proof -
  from assms have b: "b \<noteq> []" "\<not> isPathSeparator (last b)"
    by (simp_all add: plain_segment_def)
  then show ?thesis
    by (simp add: win32_finish_def Let_def normalizeString_plain_last [OF bs_sep assms]
          split: option.splits)
qed

lemma win32_finish_prefix:
  assumes "plain_segment isPathSeparator b"
  shows "win32_finish dev isAbsolute (x @ CHR 0x5C # b) (u @ CHR 0x5C # b) =
           win32_prefix dev isAbsolute x @ b"
  using win32_finish_plain_last [OF assms] by (simp add: win32_prefix_def)

lemma win32_unc_plain_last:
  assumes last: "rest \<noteq> []" "\<not> isPathSeparator (last rest)"
      and unc: "\<not> isPathSeparator (hd rest) \<longrightarrow> (\<exists>c \<in> set rest. isPathSeparator c)"
  shows "\<exists>k. \<forall>b. plain_segment isPathSeparator b \<longrightarrow>
               win32_unc (rest @ CHR 0x5C # b) (u @ CHR 0x5C # b) = k @ b"
proof -
  let ?nosep = "\<lambda>c. \<not> isPathSeparator c"
  let ?first = "takeWhile ?nosep rest"
  let ?v = "dropWhile ?nosep rest"
  let ?w = "dropWhile isPathSeparator ?v"
  have first: "takeWhile ?nosep (rest @ CHR 0x5C # b) = ?first" for b
    by (rule takeWhile_before) (simp add: bs_sep)
  have r1: "dropWhile ?nosep (rest @ CHR 0x5C # b) = ?v @ CHR 0x5C # b" for b
    by (rule dropWhile_before) (simp add: bs_sep)
  show ?thesis
  proof (cases "?first = []")
    case True
    have "win32_unc (rest @ CHR 0x5C # b) (u @ CHR 0x5C # b) = win32_prefix None True u @ b"
      if b: "plain_segment isPathSeparator b" for b
    proof -
      have "win32_unc (rest @ CHR 0x5C # b) (u @ CHR 0x5C # b) =
              win32_finish None True (u @ CHR 0x5C # b) (u @ CHR 0x5C # b)"
        unfolding win32_unc_def Let_def first using True by simp
      then show ?thesis
        by (simp add: win32_finish_prefix [OF b])
    qed
    then show ?thesis by blast
  next
    case False
    with last(1) have "\<not> isPathSeparator (hd rest)"
      by (cases rest) (auto split: if_splits)
    with unc have "\<exists>c \<in> set rest. isPathSeparator c"
      by simp
    then have v: "?v \<noteq> []"
      by (simp add: dropWhile_eq_Nil_conv)
    have "\<exists>x \<in> set ?v. \<not> isPathSeparator x"
      using v last(2) by (rule dropWhile_has_last [where Q = isPathSeparator])
    then have r2: "dropWhile isPathSeparator (?v @ CHR 0x5C # b) = ?w @ CHR 0x5C # b" for b
      by (rule dropWhile_keeps)
    have second: "takeWhile ?nosep (?w @ CHR 0x5C # b) = takeWhile ?nosep ?w" for b
      by (rule takeWhile_before) (simp add: bs_sep)
    have r3: "dropWhile ?nosep (?w @ CHR 0x5C # b) = dropWhile ?nosep ?w @ CHR 0x5C # b" for b
      by (rule dropWhile_before) (simp add: bs_sep)
    have "win32_unc (rest @ CHR 0x5C # b) (u @ CHR 0x5C # b) =
            win32_prefix
              (Some ([CHR 0x5C, CHR 0x5C] @ ?first @ [CHR 0x5C] @ takeWhile ?nosep ?w))
              True (dropWhile ?nosep ?w) @ b"
      if b: "plain_segment isPathSeparator b" for b
    proof -
      have "win32_unc (rest @ CHR 0x5C # b) (u @ CHR 0x5C # b) =
              win32_finish
                (Some ([CHR 0x5C, CHR 0x5C] @ ?first @ [CHR 0x5C] @ takeWhile ?nosep ?w))
                True (dropWhile ?nosep ?w @ CHR 0x5C # b) (u @ CHR 0x5C # b)"
        unfolding win32_unc_def Let_def first r1 r2 second r3
        using False by simp
      then show ?thesis
        by (simp add: win32_finish_prefix [OF b])
    qed
    then show ?thesis by blast
  qed
qed

lemma win32_normalize_plain_last:
  assumes len: "3 \<le> length u"
      and last: "\<not> isPathSeparator (last u)"
      and unc: "isPathSeparator (u ! 0) \<and> isPathSeparator (u ! 1) \<and> \<not> isPathSeparator (u ! 2) \<longrightarrow>
                  (\<exists>c \<in> set (drop 2 u). isPathSeparator c)"
  shows "\<exists>k. \<forall>b. plain_segment isPathSeparator b \<longrightarrow>
               win32_normalize (u @ CHR 0x5C # b) = k @ b"
proof -
  from len obtain c0 c1 rest where u: "u = c0 # c1 # rest" and rest: "rest \<noteq> []"
    by (cases u; cases "tl u"; cases "tl (tl u)") auto
  have lastr: "\<not> isPathSeparator (last rest)"
    using last rest by (simp add: u)
  have hd2: "hd rest = u ! 2"
    using rest by (cases rest) (simp_all add: u)
  have path: "u @ CHR 0x5C # b = c0 # c1 # (rest @ CHR 0x5C # b)" for b
    by (simp add: u)
  have hdr: "hd (rest @ CHR 0x5C # b) = hd rest" "tl (rest @ CHR 0x5C # b) = tl rest @ CHR 0x5C # b"
    for b
    using rest by simp_all
  show ?thesis
  proof (cases "isPathSeparator c0")
    case sep0: True
    show ?thesis
    proof (cases "isPathSeparator c1")
      case True
      with sep0 have "win32_normalize (u @ CHR 0x5C # b) =
                        win32_unc (rest @ CHR 0x5C # b) (u @ CHR 0x5C # b)" for b
        by (simp add: win32_normalize_def u)
      moreover have "\<not> isPathSeparator (hd rest) \<longrightarrow> (\<exists>c \<in> set rest. isPathSeparator c)"
        using unc sep0 True by (simp add: hd2) (simp add: u)
      ultimately show ?thesis
        using win32_unc_plain_last [OF rest lastr, of u] by simp
    next
      case False
      with sep0 have "win32_normalize (u @ CHR 0x5C # b) =
                        win32_finish None True ((c1 # rest) @ CHR 0x5C # b) (u @ CHR 0x5C # b)" for b
        by (simp add: win32_normalize_def u)
      then have "\<forall>b. plain_segment isPathSeparator b \<longrightarrow>
                   win32_normalize (u @ CHR 0x5C # b) = win32_prefix None True (c1 # rest) @ b"
        using win32_finish_prefix [where x = "c1 # rest" and u = u] by simp
      then show ?thesis by blast
    qed
  next
    case nosep0: False
    show ?thesis
    proof (cases "isWindowsDeviceRoot c0 \<and> c1 = CHR '':''")
      case drive: True
      show ?thesis
      proof (cases "isPathSeparator (hd rest)")
        case True
        with nosep0 drive
        have "win32_normalize (u @ CHR 0x5C # b) =
                win32_finish (Some [c0, c1]) True (tl rest @ CHR 0x5C # b) (u @ CHR 0x5C # b)" for b
          unfolding path win32_normalize_def by (simp add: hdr)
        then have "\<forall>b. plain_segment isPathSeparator b \<longrightarrow>
                     win32_normalize (u @ CHR 0x5C # b) =
                       win32_prefix (Some [c0, c1]) True (tl rest) @ b"
          by (simp add: win32_finish_prefix)
        then show ?thesis by blast
      next
        case False
        with nosep0 drive
        have "win32_normalize (u @ CHR 0x5C # b) =
                win32_finish (Some [c0, c1]) False (rest @ CHR 0x5C # b) (u @ CHR 0x5C # b)" for b
          unfolding path win32_normalize_def by (simp add: hdr)
        then have "\<forall>b. plain_segment isPathSeparator b \<longrightarrow>
                     win32_normalize (u @ CHR 0x5C # b) =
                       win32_prefix (Some [c0, c1]) False rest @ b"
          by (simp add: win32_finish_prefix)
        then show ?thesis by blast
      qed
    next
      case False
      with nosep0 have "win32_normalize (u @ CHR 0x5C # b) =
                          win32_finish None False (u @ CHR 0x5C # b) (u @ CHR 0x5C # b)" for b
        unfolding win32_normalize_def by (auto simp: u)
      then have "\<forall>b. plain_segment isPathSeparator b \<longrightarrow>
                   win32_normalize (u @ CHR 0x5C # b) = win32_prefix None False u @ b"
        by (simp add: win32_finish_prefix)
      then show ?thesis by blast
    qed
  qed
qed

lemma takeWhile_two:
  assumes "2 \<le> length q" and "P (q ! 0)" and "P (q ! 1)"
  shows "2 \<le> length (takeWhile P q)"
proof -
  from assms(1) obtain x y r where "q = x # y # r"
    by (cases q; cases "tl q") auto
  with assms(2,3) show ?thesis by simp
qed

lemma dropWhile_plain_suffix:
  assumes "a \<noteq> []" and "\<not> P (hd a)"
  shows "dropWhile P (x @ a) = dropWhile P x @ a"
  using assms by (induction x) (auto simp: dropWhile_eq_Cons_conv neq_Nil_conv)

lemma win32_join_plain_last:
  assumes a: "plain_segment isPathSeparator a" and len: "3 \<le> length a"
  shows "\<exists>k. \<forall>b. plain_segment isPathSeparator b \<longrightarrow> win32_join [d, a, b] = k @ b"
proof -
  let ?S = isPathSeparator
  from a have a1: "a \<noteq> []" "\<not> ?S (hd a)" "\<not> ?S (last a)"
    by (auto simp: plain_segment_def)
  define x where "x = (if d = [] then [] else d @ [CHR 0x5C])"
  define q where "q = x @ a"
  define fp where "fp = (if d = [] then a else d)"
  define needsReplace where
    "needsReplace = (\<not> (2 < length fp \<and> ?S (fp ! 0) \<and> ?S (fp ! 1) \<and> \<not> ?S (fp ! 2)))"
  define n where "n = length (takeWhile ?S q)"
  define u where "u = (if needsReplace \<and> 2 \<le> n then CHR 0x5C # dropWhile ?S x @ a else q)"
  have nonsep: "\<exists>c \<in> set q. \<not> ?S c"
    using a1 by (auto simp: q_def intro: bexI [of _ "hd a"])
  have tw: "takeWhile ?S (q @ CHR 0x5C # b) = takeWhile ?S q" for b
    using nonsep by (auto intro: takeWhile_append1)
  have dq: "dropWhile ?S q = dropWhile ?S x @ a"
    unfolding q_def using a1(1,2) by (rule dropWhile_plain_suffix)
  have dr: "drop n (q @ CHR 0x5C # b) = dropWhile ?S x @ a @ CHR 0x5C # b" for b
  proof -
    have "drop n (q @ CHR 0x5C # b) = dropWhile ?S (q @ CHR 0x5C # b)"
      by (simp add: n_def dropWhile_eq_drop tw)
    also have "\<dots> = dropWhile ?S q @ CHR 0x5C # b"
      using nonsep by (rule dropWhile_keeps)
    finally show ?thesis
      by (simp add: dq)
  qed
  have wj: "win32_join [d, a, b] = win32_normalize (u @ CHR 0x5C # b)" if "b \<noteq> []" for b
  proof -
    have parts: "filter (\<lambda>arg. arg \<noteq> []) [d, a, b] = (if d = [] then [a, b] else [d, a, b])"
      by (simp add: a1(1) that)
    have joined: "join_with [CHR 0x5C] (filter (\<lambda>arg. arg \<noteq> []) [d, a, b]) = q @ CHR 0x5C # b"
      unfolding parts by (simp add: q_def x_def)
    have hdp: "hd (filter (\<lambda>arg. arg \<noteq> []) [d, a, b]) = fp"
      unfolding parts by (simp add: fp_def)
    have ne: "filter (\<lambda>arg. arg \<noteq> []) [d, a, b] \<noteq> []"
      unfolding parts by simp
    have "win32_join [d, a, b] =
            win32_normalize (if needsReplace \<and> 2 \<le> n then CHR 0x5C # drop n (q @ CHR 0x5C # b)
                             else q @ CHR 0x5C # b)"
      unfolding win32_join_def Let_def joined hdp needsReplace_def n_def tw
      by (simp only: ne if_False)
    also have "(if needsReplace \<and> 2 \<le> n then CHR 0x5C # drop n (q @ CHR 0x5C # b)
                else q @ CHR 0x5C # b) = u @ CHR 0x5C # b"
      unfolding u_def dr by simp
    finally show ?thesis .
  qed
  have ulen: "3 \<le> length u"
    using len by (simp add: u_def q_def)
  have ulast: "\<not> ?S (last u)"
    using a1 by (simp add: u_def q_def)
  have unc: "?S (u ! 0) \<and> ?S (u ! 1) \<and> \<not> ?S (u ! 2) \<longrightarrow> (\<exists>c \<in> set (drop 2 u). ?S c)"
  proof (cases "needsReplace \<and> 2 \<le> n")
    case True
    then have "u = CHR 0x5C # dropWhile ?S x @ a"
      by (simp add: u_def)
    moreover have "\<not> ?S (hd (dropWhile ?S x @ a))"
    proof (cases "dropWhile ?S x = []")
      case True
      show ?thesis
        unfolding True using a1 by simp
    next
      case False
      then show ?thesis
        using hd_dropWhile [OF False] by simp
    qed
    moreover have "dropWhile ?S x @ a \<noteq> []"
      using a1 by simp
    ultimately have "\<not> ?S (u ! 1)"
      by (simp add: hd_conv_nth)
    then show ?thesis by simp
  next
    case False
    then have uq: "u = q"
      unfolding u_def by (simp only: if_False)
    show ?thesis
    proof (intro impI)
      assume h: "?S (u ! 0) \<and> ?S (u ! 1) \<and> \<not> ?S (u ! 2)"
      then have "2 \<le> length (takeWhile ?S q)"
        using ulen by (intro takeWhile_two) (simp_all add: uq)
      then have "2 \<le> n"
        by (simp add: n_def)
      with False have nr: "\<not> needsReplace" by simp
      have "d \<noteq> []"
      proof
        assume "d = []"
        then have "u = a" by (simp add: uq q_def x_def)
        with h a1 show False by (simp add: hd_conv_nth)
      qed
      with nr have "2 < length d"
        by (simp add: needsReplace_def fp_def)
      then have "drop 2 u = drop 2 d @ CHR 0x5C # a"
        using \<open>d \<noteq> []\<close> by (simp add: uq q_def x_def)
      then show "\<exists>c \<in> set (drop 2 u). ?S c"
        using bs_sep by auto
    qed
  qed
  from win32_normalize_plain_last [OF ulen ulast unc] obtain k where
    "\<forall>b. plain_segment isPathSeparator b \<longrightarrow> win32_normalize (u @ CHR 0x5C # b) = k @ b" ..
  then have "\<forall>b. plain_segment isPathSeparator b \<longrightarrow> win32_join [d, a, b] = k @ b"
    using wj by (simp add: plain_segment_def)
  then show ?thesis ..
qed

lemma node_path_join_plain_last:
  assumes "plain_segment isPathSeparator a" and "3 \<le> length a"
  shows "\<exists>k. \<forall>b. plain_segment isPathSeparator b \<longrightarrow> node_path_join plat [d, a, b] = k @ b"
proof (cases "plat = ''win32''")
  case True
  with win32_join_plain_last [OF assms] show ?thesis
    by (simp add: node_path_join_def)
next
  case False
  have p: "plain_segment isPosixPathSeparator b" if "plain_segment isPathSeparator b" for b
    using that by (auto simp: plain_segment_def isPathSeparator_def isPosixPathSeparator_def)
  have "a \<noteq> []"
    using assms(1) by (simp add: plain_segment_def)
  from posix_join_plain_last [OF this, of d] obtain k where
    "\<forall>b. plain_segment isPosixPathSeparator b \<longrightarrow> posix_join [d, a, b] = k @ b" ..
  with p False have "\<forall>b. plain_segment isPathSeparator b \<longrightarrow> node_path_join plat [d, a, b] = k @ b"
    by (simp add: node_path_join_def)
  then show ?thesis ..
qed

subsection \<open>Different profiles, different directories\<close>

lemma plain_ms_playwright:
  "plain_segment isPathSeparator ''ms-playwright''" "3 \<le> length ''ms-playwright''"
  by (simp_all add: plain_segment_def isPathSeparator_def)

lemma plain_profile_name:
  assumes "k \<in> chromium_tokens \<union> {''firefox'', ''webkit''}"
  shows "plain_segment isPathSeparator (''mcp-'' @ k @ ''-profile'')"
proof -
  from assms have "\<forall>c \<in> set k. \<not> isPathSeparator c"
    unfolding chromium_tokens_def by (auto simp: isPathSeparator_def)
  then show ?thesis
    by (auto simp: plain_segment_def isPathSeparator_def)
qed

lemma node_profile_paths_differ:
  assumes "k1 \<in> chromium_tokens \<union> {''firefox'', ''webkit''}"
      and "k2 \<in> chromium_tokens \<union> {''firefox'', ''webkit''}"
      and "k1 \<noteq> k2"
  shows "node_path_join plat [d, ''ms-playwright'', ''mcp-'' @ k1 @ ''-profile''] \<noteq>
         node_path_join plat [d, ''ms-playwright'', ''mcp-'' @ k2 @ ''-profile'']"
proof -
  from node_path_join_plain_last [OF plain_ms_playwright, of plat d] obtain k where
    k: "\<forall>b. plain_segment isPathSeparator b \<longrightarrow>
             node_path_join plat [d, ''ms-playwright'', b] = k @ b" ..
  from k plain_profile_name [OF assms(1)] plain_profile_name [OF assms(2)] assms(3)
  show ?thesis by simp
qed

lemma switch_profile_paths_differ:
  assumes node: "joins_as_node w"
      and 1: "createUserDataDir w (fst (browser_switch t1)) (snd (browser_switch t1)) = Inr (q1, v1)"
      and 2: "createUserDataDir w (fst (browser_switch t2)) (snd (browser_switch t2)) = Inr (q2, v2)"
      and ne: "browser_switch t1 \<noteq> browser_switch t2"
  shows "q1 \<noteq> q2"
proof -
  let ?k1 = "profile_key (fst (browser_switch t1)) (snd (browser_switch t1))"
  let ?k2 = "profile_key (fst (browser_switch t2)) (snd (browser_switch t2))"
  from 1 2 obtain d where
    d: "cacheDirectory w = Inr d" and
    q1: "q1 = path_join w [d, ''ms-playwright'', ''mcp-'' @ ?k1 @ ''-profile'']" and
    q2: "q2 = path_join w [d, ''ms-playwright'', ''mcp-'' @ ?k2 @ ''-profile'']"
    by (auto simp: createUserDataDir_Inr)
  from node d have j: "path_join w [d, ''ms-playwright'', name] =
                       node_path_join (platform w) [d, ''ms-playwright'', name]" for name
    by (simp add: joins_as_node_def)
  from ne have "?k1 \<noteq> ?k2"
    using profile_key_switch_inj by blast
  with node_profile_paths_differ [OF profile_key_switch [of t1] profile_key_switch [of t2]]
  show ?thesis
    by (simp add: q1 q2 j)
qed

text \<open>
  C7. \<open>createUserDataDir\<close> is stable: when a call returns a path, the call repeated on the
  resulting file system returns the same path and does not fail. Its only caller passes
  the pairs of the \<^verbatim>\<open>switch\<close> of \<open>configFromCLIOptions\<close>; in an environment that joins as
  Node does, two different such pairs get different paths, and so do \<open>('chromium',
  'chrome')\<close> and \<open>('chromium', 'msedge')\<close>.
\<close>

theorem profile_dir_stable_and_unique:
  "(createUserDataDir w b c = Inr (p, w') \<longrightarrow> createUserDataDir w' b c = Inr (p, w')) \<and>
   (joins_as_node w \<and>
    createUserDataDir w (fst (browser_switch t1)) (snd (browser_switch t1)) = Inr (q1, v1) \<and>
    createUserDataDir w (fst (browser_switch t2)) (snd (browser_switch t2)) = Inr (q2, v2) \<and>
    browser_switch t1 \<noteq> browser_switch t2 \<longrightarrow> q1 \<noteq> q2) \<and>
   (joins_as_node w \<and>
    createUserDataDir w ''chromium'' (Some ''chrome'') = Inr (p1, w1) \<and>
    createUserDataDir w ''chromium'' (Some ''msedge'') = Inr (p2, w2) \<longrightarrow> p1 \<noteq> p2)"
proof (intro conjI impI)
  assume "createUserDataDir w b c = Inr (p, w')"
  then show "createUserDataDir w' b c = Inr (p, w')"
    by (rule createUserDataDir_again)
next
  assume "joins_as_node w \<and>
    createUserDataDir w (fst (browser_switch t1)) (snd (browser_switch t1)) = Inr (q1, v1) \<and>
    createUserDataDir w (fst (browser_switch t2)) (snd (browser_switch t2)) = Inr (q2, v2) \<and>
    browser_switch t1 \<noteq> browser_switch t2"
  then show "q1 \<noteq> q2"
    using switch_profile_paths_differ by blast
next
  have s: "browser_switch (Some ''chrome'') = (''chromium'', Some ''chrome'')"
    "browser_switch (Some ''msedge'') = (''chromium'', Some ''msedge'')"
    by (simp_all add: browser_switch_def)
  assume "joins_as_node w \<and>
    createUserDataDir w ''chromium'' (Some ''chrome'') = Inr (p1, w1) \<and>
    createUserDataDir w ''chromium'' (Some ''msedge'') = Inr (p2, w2)"
  then show "p1 \<noteq> p2"
    using switch_profile_paths_differ [of w "Some ''chrome''" p1 w1 "Some ''msedge''" p2 w2]
    by (simp add: s)
qed

lemma ex_node_join1: "posix_join [''/home/u'', ''.cache''] = ''/home/u/.cache''"
  by (simp add: posix_join_def posix_normalize_def normalizeString_def normalize_step_def
        isPosixPathSeparator_def Let_def)

lemma ex_node_join2:
  "posix_join [''/home/u/.cache'', ''ms-playwright'', ''mcp-chrome-profile''] =
     ''/home/u/.cache/ms-playwright/mcp-chrome-profile''"
  "posix_join [''/home/u/.cache'', ''ms-playwright'', ''mcp-msedge-profile''] =
     ''/home/u/.cache/ms-playwright/mcp-msedge-profile''"
  by (simp_all add: posix_join_def posix_normalize_def normalizeString_def normalize_step_def
        isPosixPathSeparator_def Let_def)


lemma ex_node_dirs:
  "createUserDataDir ex_node_world ''chromium'' (Some ''chrome'') =
     Inr (''/home/u/.cache/ms-playwright/mcp-chrome-profile'',
          ex_node_world\<lparr>dirs := [''/home/u/.cache/ms-playwright/mcp-chrome-profile'']\<rparr>)"
  "createUserDataDir ex_node_world ''chromium'' (Some ''msedge'') =
     Inr (''/home/u/.cache/ms-playwright/mcp-msedge-profile'',
          ex_node_world\<lparr>dirs := [''/home/u/.cache/ms-playwright/mcp-msedge-profile'']\<rparr>)"
  by (simp_all add: createUserDataDir_def cacheDirectory_def ex_node_world_def ex_world_def
        node_path_join_def truthy_str_def mkdir_recursive_def Let_def ex_node_join1 ex_node_join2)

lemma ex_win32_join:
  "win32_join [''C:'' @ [CHR 0x5C] @ ''Users'' @ [CHR 0x5C] @ ''u'', ''ms-playwright'',
               ''mcp-chrome-profile''] = ex_win32_dir ''mcp-chrome-profile''"
  "win32_join [''C:'' @ [CHR 0x5C] @ ''Users'' @ [CHR 0x5C] @ ''u'', ''ms-playwright'',
               ''mcp-msedge-profile''] = ex_win32_dir ''mcp-msedge-profile''"
  by (simp_all add: win32_join_def win32_normalize_def win32_finish_def normalizeString_def
        normalize_step_def isPathSeparator_def isWindowsDeviceRoot_def Let_def ex_win32_dir_def)

lemma ex_win32_dirs:
  "createUserDataDir ex_win32_world ''chromium'' (Some ''chrome'') =
     Inr (ex_win32_dir ''mcp-chrome-profile'',
          ex_win32_world\<lparr>dirs := [ex_win32_dir ''mcp-chrome-profile'']\<rparr>)"
  "createUserDataDir ex_win32_world ''chromium'' (Some ''msedge'') =
     Inr (ex_win32_dir ''mcp-msedge-profile'',
          ex_win32_world\<lparr>dirs := [ex_win32_dir ''mcp-msedge-profile'']\<rparr>)"
proof -
  have c: "cacheDirectory ex_win32_world = Inr (''C:'' @ [CHR 0x5C] @ ''Users'' @ [CHR 0x5C] @ ''u'')"
    by (simp add: cacheDirectory_def ex_win32_world_def ex_world_def truthy_str_def)
  have j: "path_join ex_win32_world = win32_join"
    by (simp add: ex_win32_world_def node_path_join_def)
  have d: "dirs ex_win32_world = []" "mkdir_error ex_win32_world = (\<lambda>p. None)"
    by (simp_all add: ex_win32_world_def ex_world_def)
  show "createUserDataDir ex_win32_world ''chromium'' (Some ''chrome'') =
     Inr (ex_win32_dir ''mcp-chrome-profile'',
          ex_win32_world\<lparr>dirs := [ex_win32_dir ''mcp-chrome-profile'']\<rparr>)"
    unfolding createUserDataDir_def c j
    using ex_win32_join(1) by (simp add: mkdir_recursive_def d Let_def)
  show "createUserDataDir ex_win32_world ''chromium'' (Some ''msedge'') =
     Inr (ex_win32_dir ''mcp-msedge-profile'',
          ex_win32_world\<lparr>dirs := [ex_win32_dir ''mcp-msedge-profile'']\<rparr>)"
    unfolding createUserDataDir_def c j
    using ex_win32_join(2) by (simp add: mkdir_recursive_def d Let_def)
qed

theorem profile_dir_stable_and_unique_witness:
  "joins_as_node ex_node_world \<and>
   browser_switch (Some ''chrome'') = (''chromium'', Some ''chrome'') \<and>
   browser_switch (Some ''msedge'') = (''chromium'', Some ''msedge'') \<and>
   createUserDataDir ex_node_world ''chromium'' (Some ''chrome'') =
     Inr (''/home/u/.cache/ms-playwright/mcp-chrome-profile'',
          ex_node_world\<lparr>dirs := [''/home/u/.cache/ms-playwright/mcp-chrome-profile'']\<rparr>) \<and>
   createUserDataDir
       (ex_node_world\<lparr>dirs := [''/home/u/.cache/ms-playwright/mcp-chrome-profile'']\<rparr>)
       ''chromium'' (Some ''chrome'') =
     Inr (''/home/u/.cache/ms-playwright/mcp-chrome-profile'',
          ex_node_world\<lparr>dirs := [''/home/u/.cache/ms-playwright/mcp-chrome-profile'']\<rparr>) \<and>
   createUserDataDir ex_node_world ''chromium'' (Some ''msedge'') =
     Inr (''/home/u/.cache/ms-playwright/mcp-msedge-profile'',
          ex_node_world\<lparr>dirs := [''/home/u/.cache/ms-playwright/mcp-msedge-profile'']\<rparr>) \<and>
   ''/home/u/.cache/ms-playwright/mcp-chrome-profile'' \<noteq>
     ''/home/u/.cache/ms-playwright/mcp-msedge-profile'' \<and>
   joins_as_node ex_win32_world \<and>
   createUserDataDir ex_win32_world ''chromium'' (Some ''chrome'') =
     Inr (ex_win32_dir ''mcp-chrome-profile'',
          ex_win32_world\<lparr>dirs := [ex_win32_dir ''mcp-chrome-profile'']\<rparr>) \<and>
   createUserDataDir ex_win32_world ''chromium'' (Some ''msedge'') =
     Inr (ex_win32_dir ''mcp-msedge-profile'',
          ex_win32_world\<lparr>dirs := [ex_win32_dir ''mcp-msedge-profile'']\<rparr>) \<and>
   ex_win32_dir ''mcp-chrome-profile'' \<noteq> ex_win32_dir ''mcp-msedge-profile''"
proof -
  have n: "joins_as_node ex_node_world"
    by (simp add: joins_as_node_def ex_node_world_def ex_world_def)
  have m: "joins_as_node ex_win32_world"
    by (simp add: joins_as_node_def ex_win32_world_def ex_world_def)
  have s: "browser_switch (Some ''chrome'') = (''chromium'', Some ''chrome'')"
    "browser_switch (Some ''msedge'') = (''chromium'', Some ''msedge'')"
    by (simp_all add: browser_switch_def)
  note t = profile_dir_stable_and_unique
  have 1: "createUserDataDir
       (ex_node_world\<lparr>dirs := [''/home/u/.cache/ms-playwright/mcp-chrome-profile'']\<rparr>)
       ''chromium'' (Some ''chrome'') =
     Inr (''/home/u/.cache/ms-playwright/mcp-chrome-profile'',
          ex_node_world\<lparr>dirs := [''/home/u/.cache/ms-playwright/mcp-chrome-profile'']\<rparr>)"
    using t [THEN conjunct1, rule_format, OF ex_node_dirs(1)] .
  have 2: "''/home/u/.cache/ms-playwright/mcp-chrome-profile'' \<noteq>
     ''/home/u/.cache/ms-playwright/mcp-msedge-profile''"
    using t [THEN conjunct2, THEN conjunct1, rule_format,
        of ex_node_world "Some ''chrome''" _ _ "Some ''msedge''"] n ex_node_dirs
    by (simp add: s)
  have 3: "ex_win32_dir ''mcp-chrome-profile'' \<noteq> ex_win32_dir ''mcp-msedge-profile''"
    using t [THEN conjunct2, THEN conjunct2, rule_format, of ex_win32_world] m ex_win32_dirs
    by blast
  show ?thesis
    using n m s ex_node_dirs ex_win32_dirs 1 2 3 by simp
qed

end
